theory Spec2Isabelle
  imports Main "HOL-Library.AList"
begin

section \<open>Strings and numbers of the host language\<close>

text \<open>
  The cloning code of \<^verbatim>\<open>clone-node.ts\<close> works on strings read from computed
  styles. The string operations it calls are modelled on character lists.  Numbers are
  modelled as exact decimals \<open>m * 10 ^ e\<close>: the binary rounding of the host's doubles and
  its exponent notation for very large and very small magnitudes are outside the model.
\<close>

definition endsWith :: "string \<Rightarrow> string \<Rightarrow> bool" where
  "endsWith s suffix \<longleftrightarrow>
     length suffix \<le> length s \<and> drop (length s - length suffix) s = suffix"

text \<open>\<^verbatim>\<open>s.substring(0, k)\<close> with \<open>k = s.length - 2\<close>; a negative end is clamped to 0.\<close>

definition substring0 :: "string \<Rightarrow> int \<Rightarrow> string" where
  "substring0 s k = take (nat k) s"

text \<open>\<^verbatim>\<open>s.replace(pat, rep)\<close> with a string pattern: only the first occurrence.\<close>

fun replace :: "string \<Rightarrow> string \<Rightarrow> string \<Rightarrow> string" where
  "replace pat rep [] = (if pat = [] then rep else [])"
| "replace pat rep (c # cs) =
     (if take (length pat) (c # cs) = pat then rep @ drop (length pat) (c # cs)
      else c # replace pat rep cs)"

definition upperChar :: "char \<Rightarrow> char" where
  "upperChar c =
     (case map_of (zip ''abcdefghijklmnopqrstuvwxyz'' ''ABCDEFGHIJKLMNOPQRSTUVWXYZ'') c of
        None \<Rightarrow> c | Some u \<Rightarrow> u)"

text \<open>\<^verbatim>\<open>s.toUpperCase()\<close>, on the letters a to z.\<close>

definition toUpperCase :: "string \<Rightarrow> string" where
  "toUpperCase s = map upperChar s"

definition isWhiteSpace :: "char \<Rightarrow> bool" where
  "isWhiteSpace c \<longleftrightarrow> c \<in> set [CHR '' '', CHR 0x09, CHR 0x0A, CHR 0x0B, CHR 0x0C, CHR 0x0D]"

definition digitVal :: "char \<Rightarrow> nat option" where
  "digitVal c =
     map_of [(CHR ''0'', 0), (CHR ''1'', 1), (CHR ''2'', 2), (CHR ''3'', 3), (CHR ''4'', 4),
             (CHR ''5'', 5), (CHR ''6'', 6), (CHR ''7'', 7), (CHR ''8'', 8), (CHR ''9'', 9)] c"

definition hexVal :: "char \<Rightarrow> nat option" where
  "hexVal c =
     (case digitVal c of
        Some d \<Rightarrow> Some d
      | None \<Rightarrow>
          map_of [(CHR ''a'', 10), (CHR ''b'', 11), (CHR ''c'', 12), (CHR ''d'', 13),
                  (CHR ''e'', 14), (CHR ''f'', 15), (CHR ''A'', 10), (CHR ''B'', 11),
                  (CHR ''C'', 12), (CHR ''D'', 13), (CHR ''E'', 14), (CHR ''F'', 15)] c)"

definition isDigit :: "char \<Rightarrow> bool" where
  "isDigit c \<longleftrightarrow> digitVal c \<noteq> None"

text \<open>The value of a digit string in a radix, most significant digit first.\<close>

definition digitsVal :: "nat \<Rightarrow> (char \<Rightarrow> nat option) \<Rightarrow> string \<Rightarrow> nat" where
  "digitsVal radix dv ds = foldl (\<lambda>a c. radix * a + (case dv c of Some d \<Rightarrow> d | None \<Rightarrow> 0)) 0 ds"

definition digitChar :: "nat \<Rightarrow> char" where
  "digitChar d = ''0123456789'' ! d"

fun natToString :: "nat \<Rightarrow> string" where
  "natToString n =
     (if n < 10 then [digitChar n] else natToString (n div 10) @ [digitChar (n mod 10)])"

declare natToString.simps [simp del]

text \<open>\<^verbatim>\<open>n.toString()\<close> and \<^verbatim>\<open>`${n}`\<close> for an integer \<open>n\<close>.\<close>

definition intToString :: "int \<Rightarrow> string" where
  "intToString i = (if i < 0 then CHR ''-'' # natToString (nat (- i)) else natToString (nat i))"

text \<open>Splitting an optional sign off the front of a string.\<close>

definition splitSign :: "string \<Rightarrow> bool \<times> string" where
  "splitSign s =
     (case s of
        c # r \<Rightarrow> (if c = CHR ''-'' then (True, r) else if c = CHR ''+'' then (False, r)
                  else (False, s))
      | [] \<Rightarrow> (False, s))"

text \<open>
  \<^verbatim>\<open>parseInt(s)\<close> without a radix: leading white space and a sign are skipped, a
  \<^verbatim>\<open>0x\<close> prefix selects radix 16, the longest prefix of digits is read, and no digit
  at all gives \<^verbatim>\<open>NaN\<close>, here \<open>None\<close>.
\<close>

definition parseInt :: "string \<Rightarrow> int option" where
  "parseInt s =
     (let (neg, s2) = splitSign (dropWhile isWhiteSpace s);
          hex = (take 2 s2 = ''0x'' \<or> take 2 s2 = ''0X'');
          s3 = (if hex then drop 2 s2 else s2);
          dv = (if hex then hexVal else digitVal);
          ds = takeWhile (\<lambda>c. dv c \<noteq> None) s3;
          v = int (digitsVal (if hex then 16 else 10) dv ds)
      in if ds = [] then None else Some (if neg then - v else v))"

text \<open>\<^verbatim>\<open>a < b\<close> on two results of \<^verbatim>\<open>parseInt\<close>: false as soon as one is \<^verbatim>\<open>NaN\<close>.\<close>

definition numLess :: "int option \<Rightarrow> int option \<Rightarrow> bool" where
  "numLess a b = (case (a, b) of (Some x, Some y) \<Rightarrow> x < y | _ \<Rightarrow> False)"

datatype number = NaN | PosInfinity | NegInfinity | Decimal int int

text \<open>The exponent part \<^verbatim>\<open>e[+-]ddd\<close> of a decimal literal; it counts only when complete.\<close>

definition exponentPart :: "string \<Rightarrow> int" where
  "exponentPart s =
     (case s of
        c # r \<Rightarrow>
          (if c = CHR ''e'' \<or> c = CHR ''E'' then
             (let (neg, r2) = splitSign r;
                  ds = takeWhile isDigit r2;
                  v = int (digitsVal 10 digitVal ds)
              in if ds = [] then 0 else if neg then - v else v)
           else 0)
      | [] \<Rightarrow> 0)"

text \<open>
  \<^verbatim>\<open>parseFloat(s)\<close>: the longest prefix that is a decimal literal, after white space
  and a sign; \<^verbatim>\<open>NaN\<close> when there is none.
\<close>

definition parseFloat :: "string \<Rightarrow> number" where
  "parseFloat s =
     (let (neg, s2) = splitSign (dropWhile isWhiteSpace s) in
      if take 8 s2 = ''Infinity'' then (if neg then NegInfinity else PosInfinity)
      else
        let ip = takeWhile isDigit s2;
            r1 = dropWhile isDigit s2;
            (fp, r2) = (case r1 of
                          c # t \<Rightarrow> (if c = CHR ''.'' then (takeWhile isDigit t, dropWhile isDigit t)
                                    else ([], r1))
                        | [] \<Rightarrow> ([], r1));
            m = int (digitsVal 10 digitVal (ip @ fp))
        in if ip = [] \<and> fp = [] then NaN
           else Decimal (if neg then - m else m) (exponentPart r2 - int (length fp)))"

text \<open>\<^verbatim>\<open>Math.floor\<close>.\<close>

fun Math_floor :: "number \<Rightarrow> number" where
  "Math_floor (Decimal m e) =
     (if 0 \<le> e then Decimal (m * 10 ^ nat e) 0 else Decimal (m div 10 ^ nat (- e)) 0)"
| "Math_floor x = x"

text \<open>\<^verbatim>\<open>x - 0.1\<close>.\<close>

fun minusTenth :: "number \<Rightarrow> number" where
  "minusTenth (Decimal m e) =
     (if - 1 \<le> e then Decimal (m * 10 ^ nat (e + 1) - 1) (- 1)
      else Decimal (m - 10 ^ nat (- e - 1)) e)"
| "minusTenth x = x"

definition stripTrailingZeros :: "string \<Rightarrow> string" where
  "stripTrailingZeros s = rev (dropWhile (\<lambda>c. c = CHR ''0'') (rev s))"

text \<open>\<^verbatim>\<open>`${x}`\<close> for a number: the decimal expansion, without trailing zeros.\<close>

fun numberToString :: "number \<Rightarrow> string" where
  "numberToString NaN = ''NaN''"
| "numberToString PosInfinity = ''Infinity''"
| "numberToString NegInfinity = ''-Infinity''"
| "numberToString (Decimal m e) =
     (let a = nat \<bar>m\<bar>;
          sign = (if m < 0 then ''-'' else '''')
      in if m = 0 then ''0''
         else if 0 \<le> e then sign @ natToString (a * 10 ^ nat e)
         else
           let p = 10 ^ nat (- e);
               ds = natToString (a mod p);
               frac = stripTrailingZeros (replicate (nat (- e) - length ds) (CHR ''0'') @ ds)
           in sign @ natToString (a div p) @ (if frac = [] then [] else CHR ''.'' # frac))"

section \<open>The live tree and the detached clone\<close>

text \<open>
  A style declaration block is an association list from property names to a value and a
  priority.  Shorthand expansion and the validation of values by the style engine are
  outside the model: \<open>setProperty\<close> stores what it is given.
\<close>

type_synonym declarations = "(string \<times> (string \<times> string)) list"

definition setProperty :: "declarations \<Rightarrow> string \<Rightarrow> string \<Rightarrow> string \<Rightarrow> declarations" where
  "setProperty style name v priority = AList.update name (v, priority) style"

definition removeProperty :: "declarations \<Rightarrow> string \<Rightarrow> declarations" where
  "removeProperty style name = AList.delete name style"

text \<open>
  What \<^verbatim>\<open>window.getComputedStyle\<close> returns: the serialized text, the property names
  it enumerates by index (\<^verbatim>\<open>toArray(sourceStyle)\<close>), and the declarations that
  \<^verbatim>\<open>getPropertyValue\<close> and \<^verbatim>\<open>getPropertyPriority\<close> read.
\<close>

record computed_style =
  cssText :: string
  propertyNames :: "string list"
  declared :: declarations

definition getPropertyValue :: "computed_style \<Rightarrow> string \<Rightarrow> string" where
  "getPropertyValue cs name = (case map_of (declared cs) name of Some (v, p) \<Rightarrow> v | None \<Rightarrow> [])"

definition getPropertyPriority :: "computed_style \<Rightarrow> string \<Rightarrow> string" where
  "getPropertyPriority cs name = (case map_of (declared cs) name of Some (v, p) \<Rightarrow> p | None \<Rightarrow> [])"

definition overflowY :: "computed_style \<Rightarrow> string" where
  "overflowY cs = getPropertyValue cs ''overflow-y''"

definition position :: "computed_style \<Rightarrow> string" where
  "position cs = getPropertyValue cs ''position''"

definition height :: "computed_style \<Rightarrow> string" where
  "height cs = getPropertyValue cs ''height''"

definition minHeight :: "computed_style \<Rightarrow> string" where
  "minHeight cs = getPropertyValue cs ''min-height''"

definition transformOrigin :: "computed_style \<Rightarrow> string" where
  "transformOrigin cs = getPropertyValue cs ''transform-origin''"

text \<open>
  The parent element is a non-owning reference of which the code reads the scroll offset
  and the computed style only.  Scroll offsets are whole pixels.
\<close>

record element_box =
  box_scrollTop :: int
  box_style :: computed_style

datatype node_class =
  HTMLCanvasElement | HTMLVideoElement | HTMLTextAreaElement | HTMLInputElement
  | HTMLSelectElement | HTMLImageElement | OtherElement | NonElement

record node_data =
  nodeClass :: node_class
  tagName :: "string option"
  attributes :: "(string \<times> string) list"
  characterData :: string
  inlineStyle :: "declarations option"
  poster :: string
  canvasDataURL :: string
  formValue :: string
  scrollTop :: int
  computedStyle :: computed_style
  parentElement :: "element_box option"

text \<open>
  A live node: its own data, its child nodes, the child nodes of its shadow root when it
  has one, and the result of \<^verbatim>\<open>assignedNodes()\<close> when the node has that member.
\<close>

datatype vnode =
  VNode (nodeData: node_data) (childNodes: "vnode list")
    (shadowRoot: "vnode list option") (assignedNodes: "vnode list option")

record clone_data =
  c_class :: node_class
  c_tagName :: "string option"
  c_attributes :: "(string \<times> string) list"
  c_characterData :: string
  c_style :: "declarations option"

datatype cnode = CNode (cloneData: clone_data) (c_childNodes: "cnode list")

text \<open>\<^verbatim>\<open>node.cloneNode(false)\<close>: the node's own data and attributes, no children.\<close>

definition shallowClone :: "vnode \<Rightarrow> cnode" where
  "shallowClone node =
     CNode \<lparr> c_class = nodeClass (nodeData node), c_tagName = tagName (nodeData node),
             c_attributes = attributes (nodeData node),
             c_characterData = characterData (nodeData node),
             c_style = inlineStyle (nodeData node) \<rparr> []"

text \<open>
  Modelled from the spec: \<^verbatim>\<open>createImage\<close> of \<^verbatim>\<open>./util\<close> is not among the sources.
  The spec has it produce a new image-type node whose source is the given representation.
\<close>

definition createImage :: "string \<Rightarrow> cnode" where
  "createImage url =
     CNode \<lparr> c_class = HTMLImageElement, c_tagName = Some ''IMG'',
             c_attributes = [(''src'', url)], c_characterData = [],
             c_style = Some [] \<rparr> []"

definition appendChild :: "cnode \<Rightarrow> cnode \<Rightarrow> cnode" where
  "appendChild parent child = CNode (cloneData parent) (c_childNodes parent @ [child])"

definition setAttribute :: "cnode \<Rightarrow> string \<Rightarrow> string \<Rightarrow> cnode" where
  "setAttribute el name v =
     CNode ((cloneData el)\<lparr> c_attributes := AList.update name v (c_attributes (cloneData el)) \<rparr>)
       (c_childNodes el)"

definition getAttribute :: "cnode \<Rightarrow> string \<Rightarrow> string option" where
  "getAttribute el name = map_of (c_attributes (cloneData el)) name"

definition setStyle :: "cnode \<Rightarrow> declarations \<Rightarrow> cnode" where
  "setStyle el style = CNode ((cloneData el)\<lparr> c_style := Some style \<rparr>) (c_childNodes el)"

definition isElement :: "cnode \<Rightarrow> bool" where
  "isElement c \<longleftrightarrow> c_class (cloneData c) \<noteq> NonElement"

section \<open>Options, environment and effects\<close>

datatype error = ResourceError string

record options =
  filter_opt :: "(vnode \<Rightarrow> bool) option"

text \<open>
  The collaborators and the window state the code reads.  \<^verbatim>\<open>getMimeType\<close>,
  \<^verbatim>\<open>resourceToDataURL\<close> and \<^verbatim>\<open>clonePseudoElements\<close> are imported from modules that
  are not among the sources and are parameters here; \<open>parseStyleText\<close> and
  \<open>parseFragment\<close> stand for the parsers behind the \<^verbatim>\<open>cssText\<close> and
  \<^verbatim>\<open>innerHTML\<close> setters.
\<close>

record env =
  getMimeType :: "string \<Rightarrow> string"
  resourceToDataURL :: "string \<Rightarrow> string \<Rightarrow> options \<Rightarrow> error + string"
  clonePseudoElements :: "vnode \<Rightarrow> cnode \<Rightarrow> cnode"
  parseStyleText :: "string \<Rightarrow> declarations"
  parseFragment :: "string \<Rightarrow> cnode list"
  innerHeight :: int
  scrollY :: int

text \<open>
  What a run does besides computing its result: the invocations of \<^verbatim>\<open>cloneNode\<close>,
  the consultations of the inclusion predicate, the canvas serializations and the
  resource conversions, in the order in which they happen.
\<close>

datatype event =
  Entered vnode | FilterCalled vnode | Serialized vnode | Requested string string

text \<open>
  A promise is its settled outcome, a rejection (\<open>Inl\<close>) or a value (\<open>Inr\<close>), with the
  events of the computation that settled it.
\<close>

type_synonym 'a promise = "(error + 'a) \<times> event list"

definition resolve :: "'a \<Rightarrow> 'a promise" where
  "resolve x = (Inr x, [])"

text \<open>\<^verbatim>\<open>p.then(f)\<close>: a rejection skips \<open>f\<close>.\<close>

definition andThen :: "'a promise \<Rightarrow> ('a \<Rightarrow> 'b promise) \<Rightarrow> 'b promise" where
  "andThen p f =
     (case p of
        (Inl e, t) \<Rightarrow> (Inl e, t)
      | (Inr x, t) \<Rightarrow> (case f x of (r, t') \<Rightarrow> (r, t @ t')))"

text \<open>An effect performed before a promise is created.\<close>

definition emit :: "event list \<Rightarrow> 'a promise \<Rightarrow> 'a promise" where
  "emit evs p = (fst p, evs @ snd p)"

lemma andThen_cong [fundef_cong]:
  assumes "p = p'" and "\<And>x t. p' = (Inr x, t) \<Longrightarrow> f x = f' x"
  shows "andThen p f = andThen p' f'"
  using assms by (auto simp: andThen_def split: prod.splits sum.splits)

section \<open>Cloning a single node\<close>

text \<open>
  The serialization of a canvas, \<^verbatim>\<open>canvas.toDataURL()\<close>, is a datum of the node and is
  taken to succeed.
\<close>

definition cloneCanvasElement :: "vnode \<Rightarrow> cnode promise" where
  "cloneCanvasElement canvas =
     (let dataURL = canvasDataURL (nodeData canvas) in
      emit [Serialized canvas]
        (if dataURL = ''data:,'' then resolve (shallowClone canvas)
         else resolve (createImage dataURL)))"

definition cloneVideoElement :: "options \<Rightarrow> env \<Rightarrow> vnode \<Rightarrow> cnode promise" where
  "cloneVideoElement opts env video =
     (let poster = poster (nodeData video);
          contentType = getMimeType env poster
      in andThen (resourceToDataURL env poster contentType opts, [Requested poster contentType])
           (\<lambda>dataURL. resolve (createImage dataURL)))"

definition cloneSingleNode :: "options \<Rightarrow> env \<Rightarrow> vnode \<Rightarrow> cnode promise" where
  "cloneSingleNode opts env node =
     (if nodeClass (nodeData node) = HTMLCanvasElement then cloneCanvasElement node
      else if nodeClass (nodeData node) = HTMLVideoElement \<and> poster (nodeData node) \<noteq> []
      then cloneVideoElement opts env node
      else resolve (shallowClone node))"

section \<open>Style replication\<close>

text \<open>The three conditions of the per-property path, as the code tests them.\<close>

definition nonBodyScrolling :: "vnode \<Rightarrow> bool" where
  "nonBodyScrolling nativeNode \<longleftrightarrow>
     0 < scrollTop (nodeData nativeNode) \<and>
     (overflowY (computedStyle (nodeData nativeNode)) = ''auto'' \<or>
      overflowY (computedStyle (nodeData nativeNode)) = ''scroll'')"

definition parentScrolling :: "element_box \<Rightarrow> bool" where
  "parentScrolling parent \<longleftrightarrow>
     0 < box_scrollTop parent \<and>
     (overflowY (box_style parent) = ''auto'' \<or> overflowY (box_style parent) = ''scroll'')"

definition bodyScrolling :: "env \<Rightarrow> computed_style \<Rightarrow> element_box \<Rightarrow> bool" where
  "bodyScrolling env sourceStyle parent \<longleftrightarrow>
     position sourceStyle \<noteq> ''fixed'' \<and>
     minHeight (box_style parent) = intToString (innerHeight env) @ ''px'' \<and>
     numLess (parseInt (replace ''px'' [] (minHeight (box_style parent))))
       (parseInt (replace ''px'' [] (height sourceStyle)))"

definition reducedFont :: "string \<Rightarrow> number" where
  "reducedFont v = minusTenth (Math_floor (parseFloat (substring0 v (int (length v) - 2))))"

text \<open>
  The two blocks under \<^verbatim>\<open>parent !== null\<close>.  Each may replace the value about
  to be committed and remove \<^verbatim>\<open>inset-block\<close> from the target; they run one after the
  other on the pair of the value and the target.
\<close>

definition parentScrollStep ::
  "element_box \<Rightarrow> string \<Rightarrow> string \<times> declarations \<Rightarrow> string \<times> declarations" where
  "parentScrollStep parent name st =
     (if parentScrolling parent then
        (if name = ''position'' then (''relative'', snd st)
         else if name = ''top'' then
           (''-'' @ intToString (box_scrollTop parent) @ ''px'',
            removeProperty (snd st) ''inset-block'')
         else st)
      else st)"

definition bodyScrollStep ::
  "env \<Rightarrow> computed_style \<Rightarrow> element_box \<Rightarrow> string \<Rightarrow> string \<times> declarations
     \<Rightarrow> string \<times> declarations" where
  "bodyScrollStep env sourceStyle parent name st =
     (if bodyScrolling env sourceStyle parent then
        (if name = ''position'' then (''relative'', snd st)
         else if name = ''top'' then
           (''-'' @ intToString (scrollY env) @ ''px'',
            removeProperty (snd st) ''inset-block'')
         else st)
      else st)"

text \<open>
  The body of the \<^verbatim>\<open>forEach\<close> over the computed property names.  It rewrites the
  value, may remove \<^verbatim>\<open>inset-block\<close> from the target, and commits the property.
\<close>

definition cloneProperty :: "env \<Rightarrow> vnode \<Rightarrow> declarations \<Rightarrow> string \<Rightarrow> declarations" where
  "cloneProperty env nativeNode targetStyle name =
     (let sourceStyle = computedStyle (nodeData nativeNode);
          v0 = getPropertyValue sourceStyle name;
          v1 = (if name = ''font-size'' \<and> endsWith v0 ''px''
                then numberToString (reducedFont v0) @ ''px'' else v0);
          v2 = (if nonBodyScrolling nativeNode \<and> name = ''overflow-y'' then ''hidden'' else v1);
          st = (case parentElement (nodeData nativeNode) of
                  None \<Rightarrow> (v2, targetStyle)
                | Some parent \<Rightarrow>
                    bodyScrollStep env sourceStyle parent name
                      (parentScrollStep parent name (v2, targetStyle)))
      in setProperty (snd st) name (fst st) (getPropertyPriority sourceStyle name))"

definition cloneCSSStyle :: "env \<Rightarrow> vnode \<Rightarrow> cnode \<Rightarrow> cnode" where
  "cloneCSSStyle env nativeNode clonedNode =
     (case c_style (cloneData clonedNode) of
        None \<Rightarrow> clonedNode
      | Some targetStyle \<Rightarrow>
          (let sourceStyle = computedStyle (nodeData nativeNode) in
           if cssText sourceStyle \<noteq> [] then
             setStyle clonedNode
               (setProperty (parseStyleText env (cssText sourceStyle)) ''transform-origin''
                  (transformOrigin sourceStyle) [])
           else
             setStyle clonedNode
               (foldl (cloneProperty env nativeNode) targetStyle (propertyNames sourceStyle))))"

section \<open>Form state and decoration\<close>

definition cloneInputValue :: "env \<Rightarrow> vnode \<Rightarrow> cnode \<Rightarrow> cnode" where
  "cloneInputValue env nativeNode clonedNode =
     (let c1 = (if nodeClass (nodeData nativeNode) = HTMLTextAreaElement
                then CNode (cloneData clonedNode) (parseFragment env (formValue (nodeData nativeNode)))
                else clonedNode)
      in if nodeClass (nodeData nativeNode) = HTMLInputElement
         then setAttribute c1 ''value'' (formValue (nodeData nativeNode))
         else c1)"

text \<open>
  \<^verbatim>\<open>Array.from(children).find(p)\<close> followed by \<^verbatim>\<open>setAttribute("selected", "")\<close> on
  the child found: the first element child that satisfies \<open>p\<close> is marked.
\<close>

fun selectFirst :: "(cnode \<Rightarrow> bool) \<Rightarrow> cnode list \<Rightarrow> cnode list" where
  "selectFirst p [] = []"
| "selectFirst p (child # rest) =
     (if isElement child \<and> p child then setAttribute child ''selected'' [] # rest
      else child # selectFirst p rest)"

definition cloneSelectValue :: "vnode \<Rightarrow> cnode \<Rightarrow> cnode" where
  "cloneSelectValue nativeNode clonedNode =
     (if nodeClass (nodeData nativeNode) = HTMLSelectElement then
        CNode (cloneData clonedNode)
          (selectFirst (\<lambda>child. getAttribute child ''value'' = Some (formValue (nodeData nativeNode)))
             (c_childNodes clonedNode))
      else clonedNode)"

definition decorate :: "env \<Rightarrow> vnode \<Rightarrow> cnode \<Rightarrow> cnode" where
  "decorate env nativeNode clonedNode =
     (if isElement clonedNode then
        cloneSelectValue nativeNode
          (cloneInputValue env nativeNode
             (clonePseudoElements env nativeNode
                (cloneCSSStyle env nativeNode clonedNode)))
      else clonedNode)"

section \<open>Children and the entry point\<close>

definition isSlotElement :: "vnode \<Rightarrow> bool" where
  "isSlotElement node \<longleftrightarrow>
     (case tagName (nodeData node) of None \<Rightarrow> False | Some t \<Rightarrow> toUpperCase t = ''SLOT'')"

text \<open>The list \<^verbatim>\<open>children\<close> that \<^verbatim>\<open>cloneChildren\<close> computes first.\<close>

definition effectiveChildren :: "vnode \<Rightarrow> vnode list" where
  "effectiveChildren nativeNode =
     (if isSlotElement nativeNode \<and> assignedNodes nativeNode \<noteq> None
      then the (assignedNodes nativeNode)
      else (case shadowRoot nativeNode of
              Some shadowChildren \<Rightarrow> shadowChildren
            | None \<Rightarrow> childNodes nativeNode))"

lemma size_list_member: "x \<in> set xs \<Longrightarrow> size x \<le> size_list size xs"
  by (induction xs) auto

lemma effectiveChildren_size_list: "size_list size (effectiveChildren node) < size node"
  by (cases node) (auto simp: effectiveChildren_def split: option.splits)

lemma effectiveChildren_size:
  "child \<in> set (effectiveChildren node) \<Longrightarrow> size child < size node"
  using size_list_member [of child "effectiveChildren node"] effectiveChildren_size_list [of node]
  by simp

text \<open>
  \<^verbatim>\<open>cloneNode\<close>, \<^verbatim>\<open>cloneChildren\<close> and the sequential \<^verbatim>\<open>reduce\<close> over the children,
  which is a chain of \<^verbatim>\<open>then\<close>: the next child is cloned only after the previous one
  has settled, and a rejection skips everything after it.
\<close>

text \<open>
  The guard of \<^verbatim>\<open>cloneNode\<close> is \<^verbatim>\<open>!isRoot && options.filter && !options.filter(node)\<close>:
  the predicate is called only when the node is not the root and a predicate is given.
\<close>

definition consulted :: "options \<Rightarrow> vnode \<Rightarrow> bool \<Rightarrow> event list" where
  "consulted opts node isRoot =
     (if \<not> isRoot \<and> filter_opt opts \<noteq> None then [FilterCalled node] else [])"

definition excluded :: "options \<Rightarrow> vnode \<Rightarrow> bool \<Rightarrow> bool" where
  "excluded opts node isRoot \<longleftrightarrow>
     \<not> isRoot \<and> (case filter_opt opts of None \<Rightarrow> False | Some f \<Rightarrow> \<not> f node)"

function cloneNode :: "options \<Rightarrow> env \<Rightarrow> vnode \<Rightarrow> bool \<Rightarrow> cnode option promise"
  and cloneChildren :: "options \<Rightarrow> env \<Rightarrow> vnode \<Rightarrow> cnode \<Rightarrow> cnode promise"
  and reduceChildren :: "options \<Rightarrow> env \<Rightarrow> vnode list \<Rightarrow> cnode \<Rightarrow> cnode promise"
where
  "cloneNode opts env node isRoot =
     emit (Entered node # consulted opts node isRoot)
       (if excluded opts node isRoot then resolve None
        else
          andThen (andThen (andThen (resolve node)
            (\<lambda>clonedNode. cloneSingleNode opts env clonedNode))
            (\<lambda>clonedNode. cloneChildren opts env node clonedNode))
            (\<lambda>clonedNode. resolve (Some (decorate env node clonedNode))))"
| "cloneChildren opts env nativeNode clonedNode =
     (let children = effectiveChildren nativeNode in
      if length children = 0 \<or> nodeClass (nodeData nativeNode) = HTMLVideoElement
      then resolve clonedNode
      else reduceChildren opts env children clonedNode)"
| "reduceChildren opts env [] clonedNode = resolve clonedNode"
| "reduceChildren opts env (child # rest) clonedNode =
     andThen (cloneNode opts env child False)
       (\<lambda>clonedChild.
          reduceChildren opts env rest
            (case clonedChild of
               Some c \<Rightarrow> appendChild clonedNode c
             | None \<Rightarrow> clonedNode))"
  by pat_completeness auto
termination
  by (relation "measure (\<lambda>x. case x of
          Inl (opts, env, node, isRoot) \<Rightarrow> 2 * size node + 2
        | Inr (Inl (opts, env, node, clonedNode)) \<Rightarrow> 2 * size node + 1
        | Inr (Inr (opts, env, children, clonedNode)) \<Rightarrow> 2 * size_list size children + 1)")
     (auto simp: effectiveChildren_size_list)

declare cloneNode.simps [simp del] cloneChildren.simps [simp del]

section \<open>Example trees and environments\<close>

text \<open>Concrete inputs on which the theorems below are instantiated.\<close>

definition plainStyle :: computed_style where
  "plainStyle = \<lparr> cssText = [], propertyNames = [], declared = [] \<rparr>"

definition plainData :: node_data where
  "plainData =
     \<lparr> nodeClass = OtherElement, tagName = None, attributes = [], characterData = [],
       inlineStyle = Some [], poster = [], canvasDataURL = [], formValue = [], scrollTop = 0,
       computedStyle = plainStyle, parentElement = None \<rparr>"

definition element :: "string \<Rightarrow> vnode list \<Rightarrow> vnode" where
  "element tag children = VNode (plainData\<lparr> tagName := Some tag \<rparr>) children None None"

definition canvasNode :: "string \<Rightarrow> vnode" where
  "canvasNode dataURL =
     VNode (plainData\<lparr> nodeClass := HTMLCanvasElement, tagName := Some ''CANVAS'',
                       canvasDataURL := dataURL \<rparr>) [] None None"

definition videoNode :: "string \<Rightarrow> vnode" where
  "videoNode url =
     VNode (plainData\<lparr> nodeClass := HTMLVideoElement, tagName := Some ''VIDEO'',
                       poster := url \<rparr>) [] None None"

definition slotNode :: "vnode list \<Rightarrow> vnode list \<Rightarrow> vnode" where
  "slotNode assigned fallback =
     VNode (plainData\<lparr> tagName := Some ''slot'' \<rparr>) fallback None (Some assigned)"

definition window0 :: env where
  "window0 = \<lparr> getMimeType = (\<lambda>url. []), resourceToDataURL = (\<lambda>url mime opts. Inr url),
       clonePseudoElements = (\<lambda>nativeNode clonedNode. clonedNode),
       parseStyleText = (\<lambda>t. []), parseFragment = (\<lambda>t. []),
       innerHeight = 800, scrollY = 0 \<rparr>"

definition posterTree :: vnode where
  "posterTree =
     element ''DIV'' [element ''A'' [], element ''SECTION'' [videoNode ''poster.png''], element ''C'' []]"

definition threeChildren :: vnode where
  "threeChildren = element ''DIV'' [element ''A'' [], element ''B'' [element ''I'' []], element ''C'' []]"

definition computedFrom :: "(string \<times> string) list \<Rightarrow> computed_style" where
  "computedFrom kvs =
     \<lparr> cssText = [], propertyNames = map fst kvs, declared = map (\<lambda>(k, v). (k, (v, []))) kvs \<rparr>"

definition styledNode :: "int \<Rightarrow> computed_style \<Rightarrow> element_box option \<Rightarrow> vnode" where
  "styledNode offset cs parent =
     VNode (plainData\<lparr> tagName := Some ''DIV'', inlineStyle := Some [(''inset-block'', (''0px'', []))],
                       scrollTop := offset, computedStyle := cs, parentElement := parent \<rparr>)
       [] None None"

definition scrolledParent :: "string \<Rightarrow> element_box" where
  "scrolledParent minH =
     \<lparr> box_scrollTop = 25,
       box_style = computedFrom [(''overflow-y'', ''scroll''), (''min-height'', minH)] \<rparr>"

definition fontNode :: "string \<Rightarrow> vnode" where
  "fontNode fontSize = styledNode 0 (computedFrom [(''font-size'', fontSize), (''line-height'', ''normal'')]) None"

definition scroller :: vnode where
  "scroller = styledNode 40 (computedFrom [(''overflow-x'', ''visible''), (''overflow-y'', ''auto'')]) None"

definition fastScroller :: vnode where
  "fastScroller =
     styledNode 40 \<lparr> cssText = ''overflow-y: auto;'', propertyNames = [''overflow-y''],
                     declared = [(''overflow-y'', (''auto'', []))] \<rparr> None"

definition scrolledChild :: "string \<Rightarrow> vnode" where
  "scrolledChild minH =
     styledNode 0 (computedFrom [(''height'', ''2000px''), (''position'', ''static''), (''top'', ''auto'')])
       (Some (scrolledParent minH))"

definition fastChild :: vnode where
  "fastChild =
     styledNode 0 \<lparr> cssText = ''position: static; top: auto;'',
                    propertyNames = [''position'', ''top''],
                    declared = [(''position'', (''static'', [])), (''top'', (''auto'', []))] \<rparr>
       (Some (scrolledParent ''0px''))"

text \<open>
  A window scrolled by 100 pixels whose style parser knows the two serialized texts used
  in the examples.
\<close>

definition textWindow :: env where
  "textWindow = window0\<lparr> parseStyleText :=
     (\<lambda>t. if t = ''overflow-y: auto;'' then [(''overflow-y'', (''auto'', []))]
          else if t = ''position: static; top: auto;''
            then [(''position'', (''static'', [])), (''top'', (''auto'', []))]
          else []),
     scrollY := 100 \<rparr>"

definition failingWindow :: env where
  "failingWindow = window0\<lparr> resourceToDataURL := (\<lambda>url mime opts. Inl (ResourceError url)) \<rparr>"

definition tagIsNot :: "string \<Rightarrow> vnode \<Rightarrow> bool" where
  "tagIsNot t node \<longleftrightarrow> tagName (nodeData node) \<noteq> Some t"

section \<open>Notions in which the properties are stated\<close>

text \<open>
  The clones that a list of child outcomes contributes to the parent: the results that
  are not \<^verbatim>\<open>null\<close>, in the order of the children.
\<close>

fun kept :: "error + cnode option \<Rightarrow> cnode list" where
  "kept (Inr (Some c)) = [c]"
| "kept (Inr None) = []"
| "kept (Inl e) = []"

definition keptClones :: "options \<Rightarrow> env \<Rightarrow> vnode list \<Rightarrow> cnode list" where
  "keptClones opts env children =
     concat (map (\<lambda>child. kept (fst (cloneNode opts env child False))) children)"

text \<open>
  The child source as the specification words it: the assigned nodes of a slot element
  that has assigned nodes, else the children of the shadow root when there is one, else
  the direct children.
\<close>

definition claimedChildren :: "vnode \<Rightarrow> vnode list" where
  "claimedChildren node =
     (if isSlotElement node \<and> assignedNodes node \<noteq> None \<and> the (assignedNodes node) \<noteq> []
      then the (assignedNodes node)
      else (case shadowRoot node of
              Some shadowChildren \<Rightarrow> shadowChildren
            | None \<Rightarrow> childNodes node))"

text \<open>The declaration of a property in the style of a clone, if there is one.\<close>

definition styleProperty :: "cnode \<Rightarrow> string \<Rightarrow> (string \<times> string) option" where
  "styleProperty c name = (case c_style (cloneData c) of None \<Rightarrow> None | Some style \<Rightarrow> map_of style name)"

text \<open>
  A computed length in pixel units: a decimal numeral, with or without a fractional part,
  followed by \<^verbatim>\<open>px\<close>.  Its integer part is \<open>m\<close>, which is also its floor.  The
  decimal numeral of \<open>m - 0.1\<close> is \<open>tenthBelow m\<close>.
\<close>

definition pxLiteral :: "nat \<Rightarrow> string \<Rightarrow> string" where
  "pxLiteral m fs = natToString m @ (if fs = [] then [] else CHR ''.'' # fs) @ ''px''"

definition tenthBelow :: "nat \<Rightarrow> string" where
  "tenthBelow m = (if m = 0 then ''-0.1'' else natToString (m - 1) @ ''.9'')"

section \<open>Promises\<close>

lemma fst_resolve [simp]: "fst (resolve x) = Inr x"
  by (simp add: resolve_def)

lemma snd_resolve [simp]: "snd (resolve x) = []"
  by (simp add: resolve_def)

lemma fst_emit [simp]: "fst (emit evs p) = fst p"
  by (simp add: emit_def)

lemma snd_emit [simp]: "snd (emit evs p) = evs @ snd p"
  by (simp add: emit_def)

lemma fst_andThen:
  "fst (andThen p f) = (case fst p of Inl e \<Rightarrow> Inl e | Inr x \<Rightarrow> fst (f x))"
  by (auto simp: andThen_def split: prod.splits sum.splits)

lemma snd_andThen:
  "snd (andThen p f) = snd p @ (case fst p of Inl e \<Rightarrow> [] | Inr x \<Rightarrow> snd (f x))"
  by (auto simp: andThen_def split: prod.splits sum.splits)

lemma andThen_resolve [simp]: "andThen (resolve x) f = f x"
  by (simp add: andThen_def resolve_def split: prod.splits)

section \<open>The inclusion predicate\<close>

lemma cloneNode_excluded:
  "excluded opts node isRoot \<Longrightarrow>
   cloneNode opts env node isRoot = (Inr None, Entered node # consulted opts node isRoot)"
  by (simp add: cloneNode.simps emit_def resolve_def)

lemma cloneNode_included:
  "\<not> excluded opts node isRoot \<Longrightarrow>
   cloneNode opts env node isRoot =
     emit (Entered node # consulted opts node isRoot)
       (andThen (andThen (cloneSingleNode opts env node) (cloneChildren opts env node))
          (\<lambda>clonedNode. resolve (Some (decorate env node clonedNode))))"
  by (simp add: cloneNode.simps)

text \<open>
  C1.  A node that is not the root and for which the inclusion predicate exists and
  returns false is cloned to \<^verbatim>\<open>null\<close> at once: the run consists of the invocation
  itself and the one consultation of the predicate.  No descendant is entered, nothing is
  serialized and no resource is requested.
\<close>

theorem filtered_node_is_pruned:
  assumes "filter_opt opts = Some f" and "\<not> f n"
  shows "cloneNode opts env n False = (Inr None, [Entered n, FilterCalled n])"
  using assms by (simp add: cloneNode_excluded excluded_def consulted_def)

theorem filtered_node_is_pruned_witness:
  "cloneNode \<lparr> filter_opt = Some (tagIsNot ''B'') \<rparr> window0 (element ''B'' [element ''I'' []]) False
     = (Inr None, [Entered (element ''B'' [element ''I'' []]),
                   FilterCalled (element ''B'' [element ''I'' []])])"
  by (rule filtered_node_is_pruned [where f = "tagIsNot ''B''"])
     (simp_all add: tagIsNot_def element_def plainData_def)

section \<open>The root is exempt from the inclusion predicate\<close>

lemma cloneSingleNode_events:
  "ev \<in> set (snd (cloneSingleNode opts env n)) \<Longrightarrow>
   ev = Serialized n \<or> ev = Requested (poster (nodeData n)) (getMimeType env (poster (nodeData n)))"
  by (auto simp: cloneSingleNode_def cloneCanvasElement_def cloneVideoElement_def Let_def
        snd_andThen split: if_splits sum.splits)

lemma reduceChildren_Cons:
  "reduceChildren opts env (child # rest) cl =
     andThen (cloneNode opts env child False)
       (\<lambda>clonedChild. reduceChildren opts env rest
          (case clonedChild of Some c \<Rightarrow> appendChild cl c | None \<Rightarrow> cl))"
  by simp

lemma reduceChildren_filter_events:
  assumes "\<And>c. c \<in> set children \<Longrightarrow>
             FilterCalled m \<in> set (snd (cloneNode opts env c False)) \<Longrightarrow> size m \<le> size c"
    and "FilterCalled m \<in> set (snd (reduceChildren opts env children cl))"
  shows "\<exists>c\<in>set children. size m \<le> size c"
  using assms
proof (induction children arbitrary: cl)
  case Nil
  then show ?case by simp
next
  case (Cons child rest)
  then show ?case
    by (auto simp: snd_andThen split: sum.splits)
qed

lemma cloneChildren_filter_events:
  assumes "\<And>c. c \<in> set (effectiveChildren n) \<Longrightarrow>
             FilterCalled m \<in> set (snd (cloneNode opts env c False)) \<Longrightarrow> size m \<le> size c"
    and "FilterCalled m \<in> set (snd (cloneChildren opts env n cl))"
  shows "size m < size n"
proof -
  from assms(2) have "FilterCalled m \<in> set (snd (reduceChildren opts env (effectiveChildren n) cl))"
    by (simp add: cloneChildren.simps Let_def split: if_splits)
  with assms(1) obtain c where "c \<in> set (effectiveChildren n)" "size m \<le> size c"
    using reduceChildren_filter_events by blast
  then show ?thesis
    using effectiveChildren_size [of c n] by simp
qed

lemma cloneNode_filter_events:
  "FilterCalled m \<in> set (snd (cloneNode opts env n r)) \<Longrightarrow> size m \<le> size n"
proof (induction n arbitrary: m r rule: measure_induct_rule [of size])
  case (less n)
  show ?case
  proof (cases "excluded opts n r")
    case True
    with less.prems show ?thesis
      by (auto simp: cloneNode_excluded consulted_def split: if_splits)
  next
    case False
    from less.prems consider "FilterCalled m \<in> set (consulted opts n r)"
      | "FilterCalled m \<in> set (snd (cloneSingleNode opts env n))"
      | cl where "FilterCalled m \<in> set (snd (cloneChildren opts env n cl))"
      by (auto simp: cloneNode_included [OF False] snd_andThen fst_andThen split: sum.splits)
    then show ?thesis
    proof cases
      case 1
      then show ?thesis by (auto simp: consulted_def split: if_splits)
    next
      case 2
      then show ?thesis using cloneSingleNode_events by blast
    next
      case 3
      have "size m < size n"
      proof (rule cloneChildren_filter_events [OF _ 3])
        fix c
        assume "c \<in> set (effectiveChildren n)"
          and "FilterCalled m \<in> set (snd (cloneNode opts env c False))"
        then show "size m \<le> size c"
          using less.IH [of c m False] effectiveChildren_size [of c n] by simp
      qed
      then show ?thesis by simp
    qed
  qed
qed

text \<open>
  C10.  A call with \<^verbatim>\<open>isRoot\<close> true never consults the inclusion predicate for its
  own node and never resolves to \<^verbatim>\<open>null\<close>: the outcome is a rejection or a clone,
  whatever the predicate is.
\<close>

theorem root_is_never_filtered:
  "fst (cloneNode opts env n True) \<noteq> Inr None \<and>
   FilterCalled n \<notin> set (snd (cloneNode opts env n True))"
proof
  have incl: "\<not> excluded opts n True"
    by (simp add: excluded_def)
  show "fst (cloneNode opts env n True) \<noteq> Inr None"
    by (auto simp: cloneNode_included [OF incl] fst_andThen split: sum.splits)
  show "FilterCalled n \<notin> set (snd (cloneNode opts env n True))"
  proof
    assume "FilterCalled n \<in> set (snd (cloneNode opts env n True))"
    then consider "FilterCalled n \<in> set (snd (cloneSingleNode opts env n))"
      | cl where "FilterCalled n \<in> set (snd (cloneChildren opts env n cl))"
      by (auto simp: cloneNode_included [OF incl] consulted_def snd_andThen fst_andThen
            split: sum.splits)
    then show False
    proof cases
      case 1
      then show False using cloneSingleNode_events by blast
    next
      case 2
      have "size n < size n"
        by (rule cloneChildren_filter_events [OF _ 2]) (rule cloneNode_filter_events)
      then show False by simp
    qed
  qed
qed

theorem root_is_never_filtered_witness:
  "fst (cloneNode \<lparr> filter_opt = Some (tagIsNot ''B'') \<rparr> window0 (element ''B'' []) True)
     \<noteq> Inr None \<and>
   FilterCalled (element ''B'' []) \<notin>
     set (snd (cloneNode \<lparr> filter_opt = Some (tagIsNot ''B'') \<rparr> window0 (element ''B'' []) True))"
  by (rule root_is_never_filtered)

section \<open>Canvas nodes\<close>

text \<open>
  C8.  Cloning a canvas serializes its pixel content.  When the serialization is the
  empty-canvas sentinel \<^verbatim>\<open>data:,\<close> the result is the shallow clone of the canvas:
  a canvas with the attributes of the original and nothing else.  Otherwise the result
  is a new image node whose source is the serialization; the canvas itself is not part
  of the result.
\<close>

theorem canvas_is_serialized:
  assumes "nodeClass (nodeData canvas) = HTMLCanvasElement"
  shows "snd (cloneSingleNode opts env canvas) = [Serialized canvas] \<and>
         (canvasDataURL (nodeData canvas) = ''data:,'' \<longrightarrow>
            fst (cloneSingleNode opts env canvas) = Inr (shallowClone canvas) \<and>
            c_class (cloneData (shallowClone canvas)) = HTMLCanvasElement \<and>
            c_attributes (cloneData (shallowClone canvas)) = attributes (nodeData canvas) \<and>
            c_childNodes (shallowClone canvas) = []) \<and>
         (canvasDataURL (nodeData canvas) \<noteq> ''data:,'' \<longrightarrow>
            fst (cloneSingleNode opts env canvas) = Inr (createImage (canvasDataURL (nodeData canvas))) \<and>
            c_class (cloneData (createImage (canvasDataURL (nodeData canvas)))) = HTMLImageElement \<and>
            getAttribute (createImage (canvasDataURL (nodeData canvas))) ''src''
              = Some (canvasDataURL (nodeData canvas)) \<and>
            c_childNodes (createImage (canvasDataURL (nodeData canvas))) = [])"
  using assms
  by (simp add: cloneSingleNode_def cloneCanvasElement_def Let_def shallowClone_def
        createImage_def getAttribute_def)

theorem canvas_is_serialized_witness:
  "fst (cloneSingleNode \<lparr> filter_opt = None \<rparr> window0 (canvasNode ''data:,''))
     = Inr (shallowClone (canvasNode ''data:,'')) \<and>
   c_class (cloneData (shallowClone (canvasNode ''data:,''))) = HTMLCanvasElement \<and>
   fst (cloneSingleNode \<lparr> filter_opt = None \<rparr> window0 (canvasNode ''data:image/png;base64,AAAA''))
     = Inr (createImage ''data:image/png;base64,AAAA'') \<and>
   getAttribute (createImage ''data:image/png;base64,AAAA'') ''src''
     = Some ''data:image/png;base64,AAAA''"
  using canvas_is_serialized [of "canvasNode ''data:,''" "\<lparr> filter_opt = None \<rparr>" window0]
    canvas_is_serialized [of "canvasNode ''data:image/png;base64,AAAA''" "\<lparr> filter_opt = None \<rparr>" window0]
  by (simp add: canvasNode_def plainData_def)

section \<open>Rejections\<close>

lemma cloneSingleNode_request_fails:
  assumes "Requested url mime \<in> set (snd (cloneSingleNode opts env n))"
    and "resourceToDataURL env url mime opts = Inl e"
  shows "fst (cloneSingleNode opts env n) = Inl e"
  using assms
  by (auto simp: cloneSingleNode_def cloneCanvasElement_def cloneVideoElement_def Let_def
        snd_andThen fst_andThen split: if_splits)

lemma reduceChildren_request_fails:
  assumes "\<And>c. c \<in> set children \<Longrightarrow>
             Requested url mime \<in> set (snd (cloneNode opts env c False)) \<Longrightarrow>
             fst (cloneNode opts env c False) = Inl e"
    and "Requested url mime \<in> set (snd (reduceChildren opts env children cl))"
  shows "fst (reduceChildren opts env children cl) = Inl e"
  using assms
proof (induction children arbitrary: cl)
  case Nil
  then show ?case by simp
next
  case (Cons child rest)
  show ?case
  proof (cases "Requested url mime \<in> set (snd (cloneNode opts env child False))")
    case True
    then have "fst (cloneNode opts env child False) = Inl e"
      using Cons.prems(1) by simp
    then show ?thesis by (simp add: fst_andThen)
  next
    case False
    with Cons.prems(2) obtain x where x: "fst (cloneNode opts env child False) = Inr x"
      and ev: "Requested url mime \<in> set (snd (reduceChildren opts env rest
                 (case x of Some c \<Rightarrow> appendChild cl c | None \<Rightarrow> cl)))"
      by (cases "fst (cloneNode opts env child False)") (auto simp: snd_andThen)
    have "fst (reduceChildren opts env rest (case x of Some c \<Rightarrow> appendChild cl c | None \<Rightarrow> cl)) = Inl e"
      using Cons.IH [OF _ ev] Cons.prems(1) by simp
    with x show ?thesis by (simp add: fst_andThen)
  qed
qed

lemma cloneNode_request_fails:
  assumes "resourceToDataURL env url mime opts = Inl e"
  shows "Requested url mime \<in> set (snd (cloneNode opts env n r)) \<Longrightarrow>
         fst (cloneNode opts env n r) = Inl e"
proof (induction n arbitrary: r rule: measure_induct_rule [of size])
  case (less n)
  show ?case
  proof (cases "excluded opts n r")
    case True
    with less.prems show ?thesis
      by (auto simp: cloneNode_excluded consulted_def split: if_splits)
  next
    case False
    note body = cloneNode_included [OF False]
    show ?thesis
    proof (cases "Requested url mime \<in> set (snd (cloneSingleNode opts env n))")
      case True
      then have "fst (cloneSingleNode opts env n) = Inl e"
        using assms by (rule cloneSingleNode_request_fails)
      then show ?thesis by (simp add: body fst_andThen)
    next
      case False
      with less.prems obtain cl where cl: "fst (cloneSingleNode opts env n) = Inr cl"
        and ev: "Requested url mime \<in> set (snd (cloneChildren opts env n cl))"
        by (cases "fst (cloneSingleNode opts env n)")
           (auto simp: body snd_andThen fst_andThen consulted_def split: if_splits)
      from ev have ev': "Requested url mime \<in> set (snd (reduceChildren opts env (effectiveChildren n) cl))"
        and run: "cloneChildren opts env n cl = reduceChildren opts env (effectiveChildren n) cl"
        by (auto simp: cloneChildren.simps Let_def split: if_splits)
      have "fst (reduceChildren opts env (effectiveChildren n) cl) = Inl e"
      proof (rule reduceChildren_request_fails [OF _ ev'])
        fix c
        assume "c \<in> set (effectiveChildren n)"
          and "Requested url mime \<in> set (snd (cloneNode opts env c False))"
        then show "fst (cloneNode opts env c False) = Inl e"
          using less.IH [of c False] effectiveChildren_size [of c n] by simp
      qed
      with cl run show ?thesis by (simp add: body fst_andThen)
    qed
  qed
qed

text \<open>
  C9.  A rejected conversion of a video poster is caught nowhere:
  \<^verbatim>\<open>cloneVideoElement\<close> rejects with it; the call of \<^verbatim>\<open>cloneNode\<close> for a video with
  that poster, when the node is not excluded, requests the conversion and rejects with
  it; and so does every call of \<^verbatim>\<open>cloneNode\<close> in whose run the conversion was
  requested, that is the calls for all the ancestors up to the root.  A rejected call
  delivers no clone.
\<close>

theorem poster_failure_propagates:
  assumes "resourceToDataURL env url mime opts = Inl e"
  shows "(poster (nodeData video) = url \<and> getMimeType env url = mime \<longrightarrow>
            cloneVideoElement opts env video = (Inl e, [Requested url mime])) \<and>
         (nodeClass (nodeData video) = HTMLVideoElement \<and> poster (nodeData video) = url \<and>
          url \<noteq> [] \<and> getMimeType env url = mime \<and> \<not> excluded opts video r \<longrightarrow>
            Requested url mime \<in> set (snd (cloneNode opts env video r)) \<and>
            fst (cloneNode opts env video r) = Inl e) \<and>
         (Requested url mime \<in> set (snd (cloneNode opts env n isRoot)) \<longrightarrow>
            fst (cloneNode opts env n isRoot) = Inl e)"
proof -
  have video: "cloneVideoElement opts env video = (Inl e, [Requested url mime])"
    if "poster (nodeData video) = url" and "getMimeType env url = mime"
    using assms that by (simp add: cloneVideoElement_def Let_def andThen_def)
  have call: "Requested url mime \<in> set (snd (cloneNode opts env video r)) \<and>
              fst (cloneNode opts env video r) = Inl e"
    if "nodeClass (nodeData video) = HTMLVideoElement" and "poster (nodeData video) = url"
      and "url \<noteq> []" and "getMimeType env url = mime" and "\<not> excluded opts video r"
  proof -
    have "cloneSingleNode opts env video = (Inl e, [Requested url mime])"
      using that(1-3) video [OF that(2,4)] by (simp add: cloneSingleNode_def)
    then show ?thesis
      by (simp add: cloneNode_included [OF that(5)] fst_andThen snd_andThen)
  qed
  from video call cloneNode_request_fails [OF assms, of n isRoot] show ?thesis
    by blast
qed

lemma posterTree_requests:
  "Requested ''poster.png'' [] \<in> set (snd (cloneNode \<lparr> filter_opt = None \<rparr> failingWindow posterTree True))"
  by (simp add: posterTree_def element_def videoNode_def plainData_def failingWindow_def window0_def
        cloneNode.simps cloneChildren.simps excluded_def consulted_def effectiveChildren_def
        isSlotElement_def toUpperCase_def upperChar_def cloneSingleNode_def cloneVideoElement_def
        Let_def snd_andThen fst_andThen shallowClone_def decorate_def isElement_def)

theorem poster_failure_propagates_witness:
  "cloneVideoElement \<lparr> filter_opt = None \<rparr> failingWindow (videoNode ''poster.png'')
     = (Inl (ResourceError ''poster.png''), [Requested ''poster.png'' []]) \<and>
   fst (cloneNode \<lparr> filter_opt = None \<rparr> failingWindow (videoNode ''poster.png'') False)
     = Inl (ResourceError ''poster.png'') \<and>
   fst (cloneNode \<lparr> filter_opt = None \<rparr> failingWindow posterTree True)
     = Inl (ResourceError ''poster.png'')"
  using poster_failure_propagates [where env = failingWindow and url = "''poster.png''"
          and mime = "[]" and opts = "\<lparr> filter_opt = None \<rparr>"
          and e = "ResourceError ''poster.png''" and video = "videoNode ''poster.png''"
          and r = False and n = posterTree and isRoot = True]
    posterTree_requests
  by (simp add: failingWindow_def window0_def videoNode_def plainData_def excluded_def)

section \<open>The order of the children\<close>

lemma appendChild_simps [simp]:
  "cloneData (appendChild cl c) = cloneData cl"
  "c_childNodes (appendChild cl c) = c_childNodes cl @ [c]"
  by (simp_all add: appendChild_def)

lemma keptClones_simps [simp]:
  "keptClones opts env [] = []"
  "keptClones opts env (child # rest) =
     kept (fst (cloneNode opts env child False)) @ keptClones opts env rest"
  by (simp_all add: keptClones_def)

lemma reduceChildren_resolved:
  assumes "fst (reduceChildren opts env children cl) = Inr cl'"
  shows "cl' = CNode (cloneData cl) (c_childNodes cl @ keptClones opts env children) \<and>
         snd (reduceChildren opts env children cl)
           = concat (map (\<lambda>child. snd (cloneNode opts env child False)) children)"
  using assms
proof (induction children arbitrary: cl)
  case Nil
  then show ?case by simp
next
  case (Cons child rest)
  from Cons.prems obtain x where x: "fst (cloneNode opts env child False) = Inr x"
    and rest: "fst (reduceChildren opts env rest
                 (case x of Some c \<Rightarrow> appendChild cl c | None \<Rightarrow> cl)) = Inr cl'"
    by (cases "fst (cloneNode opts env child False)") (auto simp: fst_andThen)
  from Cons.IH [OF rest] x show ?case
    by (cases x) (simp_all add: snd_andThen)
qed

lemma reduceChildren_all_resolve:
  assumes "\<forall>child\<in>set children. \<forall>e. fst (cloneNode opts env child False) \<noteq> Inl e"
  shows "reduceChildren opts env children cl =
           (Inr (CNode (cloneData cl) (c_childNodes cl @ keptClones opts env children)),
            concat (map (\<lambda>child. snd (cloneNode opts env child False)) children))"
  using assms
proof (induction children arbitrary: cl)
  case Nil
  then show ?case by (simp add: resolve_def)
next
  case (Cons child rest)
  from Cons.prems obtain x where x: "fst (cloneNode opts env child False) = Inr x"
    by (cases "fst (cloneNode opts env child False)") auto
  let ?cl = "case x of Some c \<Rightarrow> appendChild cl c | None \<Rightarrow> cl"
  have rest: "reduceChildren opts env rest ?cl =
           (Inr (CNode (cloneData ?cl) (c_childNodes ?cl @ keptClones opts env rest)),
            concat (map (\<lambda>child. snd (cloneNode opts env child False)) rest))"
    using Cons.IH [of ?cl] Cons.prems by simp
  have "fst (reduceChildren opts env (child # rest) cl)
          = Inr (CNode (cloneData cl) (c_childNodes cl @ keptClones opts env (child # rest)))"
    using x rest by (cases x) (simp_all add: fst_andThen)
  moreover have "snd (reduceChildren opts env (child # rest) cl)
          = concat (map (\<lambda>child. snd (cloneNode opts env child False)) (child # rest))"
    using x rest by (simp add: snd_andThen)
  ultimately show ?case
    by (simp add: prod_eq_iff)
qed

lemma reduceChildren_resolves_only_if:
  assumes "fst (reduceChildren opts env children cl) = Inr cl'"
  shows "\<forall>child\<in>set children. \<forall>e. fst (cloneNode opts env child False) \<noteq> Inl e"
  using assms
proof (induction children arbitrary: cl)
  case Nil
  then show ?case by simp
next
  case (Cons child rest)
  from Cons.prems obtain x where x: "fst (cloneNode opts env child False) = Inr x"
    and rest: "fst (reduceChildren opts env rest
                 (case x of Some c \<Rightarrow> appendChild cl c | None \<Rightarrow> cl)) = Inr cl'"
    by (cases "fst (cloneNode opts env child False)") (auto simp: fst_andThen)
  from Cons.IH [OF rest] x show ?case by simp
qed

text \<open>
  C2.  \<^verbatim>\<open>cloneChildren\<close> on a node that is not a video resolves exactly when the
  \<^verbatim>\<open>cloneNode\<close> call, as non-root, of every effective child resolves, and then its
  result and its run are determined: the clone it returns is the clone it was given with
  children appended, namely the results of those calls in the order of the effective
  children, the \<^verbatim>\<open>null\<close> results left out, and the run is the concatenation of the
  children's runs in the same order, each child being cloned after the previous one has
  settled.  For a video node the clone is returned as it is and no child is cloned.
\<close>

theorem children_keep_their_order:
  "(nodeClass (nodeData node) \<noteq> HTMLVideoElement \<and>
    (\<forall>child\<in>set (effectiveChildren node). \<forall>e. fst (cloneNode opts env child False) \<noteq> Inl e) \<longrightarrow>
      cloneChildren opts env node cl =
        (Inr (CNode (cloneData cl) (c_childNodes cl @ keptClones opts env (effectiveChildren node))),
         concat (map (\<lambda>child. snd (cloneNode opts env child False)) (effectiveChildren node)))) \<and>
   (nodeClass (nodeData node) = HTMLVideoElement \<longrightarrow>
      cloneChildren opts env node cl = (Inr cl, [])) \<and>
   (fst (cloneChildren opts env node cl) = Inr cl' \<longrightarrow>
      cloneData cl' = cloneData cl \<and>
      c_childNodes cl' = c_childNodes cl @
        (if nodeClass (nodeData node) = HTMLVideoElement then []
         else keptClones opts env (effectiveChildren node)) \<and>
      snd (cloneChildren opts env node cl) =
        (if nodeClass (nodeData node) = HTMLVideoElement then []
         else concat (map (\<lambda>child. snd (cloneNode opts env child False))
                        (effectiveChildren node))) \<and>
      (nodeClass (nodeData node) = HTMLVideoElement \<or>
       (\<forall>child\<in>set (effectiveChildren node). \<forall>e. fst (cloneNode opts env child False) \<noteq> Inl e)))"
proof (cases "effectiveChildren node = [] \<or> nodeClass (nodeData node) = HTMLVideoElement")
  case True
  then have "cloneChildren opts env node cl = (Inr cl, [])"
    by (simp add: cloneChildren.simps Let_def resolve_def)
  with True show ?thesis
    by (auto simp: keptClones_def)
next
  case False
  let ?children = "effectiveChildren node"
  let ?all = "\<forall>child\<in>set ?children. \<forall>e. fst (cloneNode opts env child False) \<noteq> Inl e"
  from False have video: "nodeClass (nodeData node) \<noteq> HTMLVideoElement"
    by simp
  from False have run: "cloneChildren opts env node cl = reduceChildren opts env ?children cl"
    by (simp add: cloneChildren.simps Let_def)
  have forth: "cloneChildren opts env node cl =
        (Inr (CNode (cloneData cl) (c_childNodes cl @ keptClones opts env ?children)),
         concat (map (\<lambda>child. snd (cloneNode opts env child False)) ?children))"
    if "?all"
    unfolding run using that by (rule reduceChildren_all_resolve)
  have only_if: "cloneData cl' = cloneData cl \<and>
      c_childNodes cl' = c_childNodes cl @ keptClones opts env ?children \<and>
      snd (cloneChildren opts env node cl) =
        concat (map (\<lambda>child. snd (cloneNode opts env child False)) ?children) \<and> ?all"
    if "fst (cloneChildren opts env node cl) = Inr cl'"
  proof -
    from that have r: "fst (reduceChildren opts env ?children cl) = Inr cl'"
      by (simp only: run)
    from reduceChildren_resolved [OF r] reduceChildren_resolves_only_if [OF r]
    show ?thesis unfolding run by simp
  qed
  show ?thesis
  proof (intro conjI impI)
    assume "nodeClass (nodeData node) = HTMLVideoElement"
    with video show "cloneChildren opts env node cl = (Inr cl, [])" by simp
  next
    assume "nodeClass (nodeData node) \<noteq> HTMLVideoElement \<and> ?all"
    then show "cloneChildren opts env node cl =
        (Inr (CNode (cloneData cl) (c_childNodes cl @ keptClones opts env ?children)),
         concat (map (\<lambda>child. snd (cloneNode opts env child False)) ?children))"
      using forth by blast
  next
    assume "fst (cloneChildren opts env node cl) = Inr cl'"
    from only_if [OF this] show "cloneData cl' = cloneData cl" by blast
  next
    assume "fst (cloneChildren opts env node cl) = Inr cl'"
    from only_if [OF this] video
    show "c_childNodes cl' = c_childNodes cl @
        (if nodeClass (nodeData node) = HTMLVideoElement then []
         else keptClones opts env ?children)" by simp
  next
    assume "fst (cloneChildren opts env node cl) = Inr cl'"
    from only_if [OF this] video
    show "snd (cloneChildren opts env node cl) =
        (if nodeClass (nodeData node) = HTMLVideoElement then []
         else concat (map (\<lambda>child. snd (cloneNode opts env child False)) ?children))" by simp
  next
    assume "fst (cloneChildren opts env node cl) = Inr cl'"
    from only_if [OF this]
    show "nodeClass (nodeData node) = HTMLVideoElement \<or> ?all" by blast
  qed
qed

lemmas run_simps =
  element_def videoNode_def canvasNode_def slotNode_def plainData_def plainStyle_def window0_def
  cloneNode.simps cloneChildren.simps excluded_def consulted_def effectiveChildren_def
  isSlotElement_def toUpperCase_def upperChar_def cloneSingleNode_def cloneVideoElement_def
  cloneCanvasElement_def Let_def snd_andThen fst_andThen shallowClone_def decorate_def
  isElement_def tagIsNot_def cloneCSSStyle_def cloneInputValue_def cloneSelectValue_def
  setStyle_def appendChild_def

lemma threeChildren_clones:
  "fst (cloneNode \<lparr> filter_opt = Some (tagIsNot ''B'') \<rparr> window0 (element ''A'' []) False)
     = Inr (Some (shallowClone (element ''A'' [])))"
  "fst (cloneNode \<lparr> filter_opt = Some (tagIsNot ''B'') \<rparr> window0 (element ''B'' [element ''I'' []]) False)
     = Inr None"
  "fst (cloneNode \<lparr> filter_opt = Some (tagIsNot ''B'') \<rparr> window0 (element ''C'' []) False)
     = Inr (Some (shallowClone (element ''C'' [])))"
  by (simp_all add: run_simps)

theorem children_keep_their_order_witness:
  "fst (cloneChildren \<lparr> filter_opt = Some (tagIsNot ''B'') \<rparr> window0 threeChildren
          (shallowClone threeChildren))
     = Inr (CNode (cloneData (shallowClone threeChildren))
              [shallowClone (element ''A'' []), shallowClone (element ''C'' [])]) \<and>
   snd (cloneChildren \<lparr> filter_opt = Some (tagIsNot ''B'') \<rparr> window0 threeChildren
          (shallowClone threeChildren))
     = snd (cloneNode \<lparr> filter_opt = Some (tagIsNot ''B'') \<rparr> window0 (element ''A'' []) False) @
       snd (cloneNode \<lparr> filter_opt = Some (tagIsNot ''B'') \<rparr> window0 (element ''B'' [element ''I'' []]) False) @
       snd (cloneNode \<lparr> filter_opt = Some (tagIsNot ''B'') \<rparr> window0 (element ''C'' []) False) \<and>
   fst (cloneNode \<lparr> filter_opt = Some (tagIsNot ''B'') \<rparr> window0 (element ''A'' []) False)
     = Inr (Some (shallowClone (element ''A'' []))) \<and>
   fst (cloneNode \<lparr> filter_opt = Some (tagIsNot ''B'') \<rparr> window0 (element ''B'' [element ''I'' []]) False)
     = Inr None \<and>
   fst (cloneNode \<lparr> filter_opt = Some (tagIsNot ''B'') \<rparr> window0 (element ''C'' []) False)
     = Inr (Some (shallowClone (element ''C'' [])))"
  using children_keep_their_order [where node = threeChildren
          and opts = "\<lparr> filter_opt = Some (tagIsNot ''B'') \<rparr>" and env = window0
          and cl = "shallowClone threeChildren", THEN conjunct1]
    threeChildren_clones
  by (simp add: threeChildren_def element_def effectiveChildren_def isSlotElement_def
        toUpperCase_def upperChar_def plainData_def shallowClone_def)

section \<open>The source of the children\<close>

text \<open>
  C7, as stated, fails for a slot element that has the \<^verbatim>\<open>assignedNodes\<close> member but no
  assigned node: the specification's wording falls back to the slot's own children, the
  code takes the empty list of assigned nodes and clones no child.
\<close>

theorem child_source_counterexample:
  "isSlotElement (slotNode [] [element ''SPAN'' []]) \<and>
   assignedNodes (slotNode [] [element ''SPAN'' []]) = Some [] \<and>
   claimedChildren (slotNode [] [element ''SPAN'' []]) = [element ''SPAN'' []] \<and>
   effectiveChildren (slotNode [] [element ''SPAN'' []]) = [] \<and>
   cloneChildren \<lparr> filter_opt = None \<rparr> window0 (slotNode [] [element ''SPAN'' []])
       (shallowClone (slotNode [] [element ''SPAN'' []]))
     = (Inr (shallowClone (slotNode [] [element ''SPAN'' []])), [])"
  by (simp add: slotNode_def claimedChildren_def effectiveChildren_def isSlotElement_def
        toUpperCase_def upperChar_def plainData_def cloneChildren.simps resolve_def)

text \<open>
  C7, amended.  The code tests for the member \<^verbatim>\<open>assignedNodes\<close>, not for assigned
  nodes: a slot element with that member uses its assigned nodes, also when there are
  none; otherwise the children of the shadow root are used when there is one, otherwise
  the direct children.  This is the specification's priority except for a slot with an
  empty list of assigned nodes.  A video node and an empty child list return the clone
  unchanged with no effect; in every other case the children are cloned in sequence.
\<close>

theorem child_source:
  "(isSlotElement node \<and> assignedNodes node = Some assigned \<longrightarrow>
      effectiveChildren node = assigned) \<and>
   (\<not> (isSlotElement node \<and> assignedNodes node \<noteq> None) \<and> shadowRoot node = Some shadowChildren \<longrightarrow>
      effectiveChildren node = shadowChildren) \<and>
   (\<not> (isSlotElement node \<and> assignedNodes node \<noteq> None) \<and> shadowRoot node = None \<longrightarrow>
      effectiveChildren node = childNodes node) \<and>
   (\<not> (isSlotElement node \<and> assignedNodes node = Some []) \<longrightarrow>
      effectiveChildren node = claimedChildren node) \<and>
   (nodeClass (nodeData node) = HTMLVideoElement \<or> effectiveChildren node = [] \<longrightarrow>
      cloneChildren opts env node cl = (Inr cl, [])) \<and>
   (nodeClass (nodeData node) \<noteq> HTMLVideoElement \<and> effectiveChildren node \<noteq> [] \<longrightarrow>
      cloneChildren opts env node cl = reduceChildren opts env (effectiveChildren node) cl)"
  by (auto simp: effectiveChildren_def claimedChildren_def cloneChildren.simps Let_def resolve_def)

theorem child_source_witness:
  "effectiveChildren (slotNode [element ''A'' []] [element ''F'' []]) = [element ''A'' []] \<and>
   effectiveChildren (slotNode [element ''A'' []] [element ''F'' []])
     = claimedChildren (slotNode [element ''A'' []] [element ''F'' []]) \<and>
   cloneChildren \<lparr> filter_opt = None \<rparr> window0 (videoNode ''p.png'') (createImage ''p.png'')
     = (Inr (createImage ''p.png''), [])"
  using child_source [where node = "slotNode [element ''A'' []] [element ''F'' []]"
          and assigned = "[element ''A'' []]" and shadowChildren = "[]"
          and opts = "\<lparr> filter_opt = None \<rparr>" and env = window0 and cl = "createImage ''p.png''"]
    child_source [where node = "videoNode ''p.png''" and assigned = "[]" and shadowChildren = "[]"
          and opts = "\<lparr> filter_opt = None \<rparr>"
          and env = window0 and cl = "createImage ''p.png''"]
  by (auto simp: slotNode_def videoNode_def isSlotElement_def toUpperCase_def upperChar_def
        plainData_def)

section \<open>Committing properties\<close>

lemma map_of_setProperty:
  "map_of (setProperty t name v p) k = (if k = name then Some (v, p) else map_of t k)"
  by (simp add: setProperty_def update_conv')

lemma map_of_removeProperty:
  "map_of (removeProperty t name) k = (if k = name then None else map_of t k)"
  by (simp add: removeProperty_def delete_conv')

text \<open>
  Each of the two steps leaves a value that does not depend on the target, and a target
  that is the old one, with or without \<^verbatim>\<open>inset-block\<close>.
\<close>

lemma fst_steps:
  "fst (bodyScrollStep env cs p name (parentScrollStep p name (v, t)))
     = fst (bodyScrollStep env cs p name (parentScrollStep p name (v, [])))"
  by (simp add: parentScrollStep_def bodyScrollStep_def)

lemma snd_steps:
  "map_of (snd (bodyScrollStep env cs p name (parentScrollStep p name (v, t)))) k =
     (if k = ''inset-block'' \<and> name = ''top'' \<and> (parentScrolling p \<or> bodyScrolling env cs p)
      then None else map_of t k)"
  by (simp add: parentScrollStep_def bodyScrollStep_def map_of_removeProperty)

text \<open>The property committed for a name does not depend on the target.\<close>

lemma cloneProperty_own:
  "map_of (cloneProperty env n t name) name = map_of (cloneProperty env n [] name) name"
proof (cases "parentElement (nodeData n)")
  case None
  then show ?thesis by (simp add: cloneProperty_def Let_def map_of_setProperty)
next
  case (Some p)
  then show ?thesis
    by (simp add: cloneProperty_def Let_def map_of_setProperty fst_steps [of env _ p name _ t])
qed

lemma cloneProperty_other:
  assumes "k \<noteq> name"
  shows "map_of (cloneProperty env n t name) k =
           (if k = ''inset-block'' \<and> name = ''top'' \<and>
               (case parentElement (nodeData n) of None \<Rightarrow> False
                | Some p \<Rightarrow> parentScrolling p \<or> bodyScrolling env (computedStyle (nodeData n)) p)
            then None else map_of t k)"
proof (cases "parentElement (nodeData n)")
  case None
  with assms show ?thesis by (simp add: cloneProperty_def Let_def map_of_setProperty)
next
  case (Some p)
  with assms show ?thesis
    by (simp add: cloneProperty_def Let_def map_of_setProperty snd_steps)
qed

lemma foldl_cloneProperty:
  assumes "k \<noteq> ''inset-block''"
  shows "map_of (foldl (cloneProperty env n) t names) k =
           (if k \<in> set names then map_of (cloneProperty env n [] k) k else map_of t k)"
proof (induction names arbitrary: t)
  case Nil
  then show ?case by simp
next
  case (Cons a names)
  show ?case
  proof (cases "k = a")
    case True
    then show ?thesis
      using Cons.IH [of "cloneProperty env n t a"] cloneProperty_own [of env n t a] by simp
  next
    case False
    then show ?thesis
      using Cons.IH [of "cloneProperty env n t a"] cloneProperty_other [OF False, of env n t] assms
      by simp
  qed
qed

lemma foldl_keeps_inset_absent:
  assumes "''inset-block'' \<notin> set names" and "map_of t ''inset-block'' = None"
  shows "map_of (foldl (cloneProperty env n) t names) ''inset-block'' = None"
  using assms
proof (induction names arbitrary: t)
  case Nil
  then show ?case by simp
next
  case (Cons a names)
  from Cons.prems have "map_of (cloneProperty env n t a) ''inset-block'' = None"
    using cloneProperty_other [of "''inset-block''" a env n t] by auto
  with Cons.IH [of "cloneProperty env n t a"] Cons.prems show ?case by simp
qed

lemma cloneProperty_top_strips:
  assumes "parentElement (nodeData n) = Some p"
    and "parentScrolling p \<or> bodyScrolling env (computedStyle (nodeData n)) p"
  shows "map_of (cloneProperty env n t ''top'') ''inset-block'' = None"
  using assms cloneProperty_other [of "''inset-block''" "''top''" env n t] by simp

lemma foldl_strips_inset:
  assumes "parentElement (nodeData n) = Some p"
    and "parentScrolling p \<or> bodyScrolling env (computedStyle (nodeData n)) p"
    and "names = before @ ''top'' # after" and "''inset-block'' \<notin> set after"
  shows "map_of (foldl (cloneProperty env n) t names) ''inset-block'' = None"
  using foldl_keeps_inset_absent [OF assms(4) cloneProperty_top_strips [OF assms(1,2)]]
  by (simp add: assms(3))

text \<open>The style of the clone after replication, on either path.\<close>

lemma cloneCSSStyle_slow:
  assumes "c_style (cloneData cl) = Some t" and "cssText (computedStyle (nodeData n)) = []"
  shows "c_style (cloneData (cloneCSSStyle env n cl))
           = Some (foldl (cloneProperty env n) t (propertyNames (computedStyle (nodeData n))))"
  using assms by (simp add: cloneCSSStyle_def setStyle_def Let_def)

lemma cloneCSSStyle_fast:
  assumes "c_style (cloneData cl) = Some t" and "cssText (computedStyle (nodeData n)) \<noteq> []"
  shows "c_style (cloneData (cloneCSSStyle env n cl))
           = Some (setProperty (parseStyleText env (cssText (computedStyle (nodeData n))))
                     ''transform-origin'' (transformOrigin (computedStyle (nodeData n))) [])"
  using assms by (simp add: cloneCSSStyle_def setStyle_def Let_def)

section \<open>Decimal numerals\<close>

lemma isDigit_iff: "isDigit c \<longleftrightarrow> c \<in> set ''0123456789''"
  by (simp add: isDigit_def digitVal_def)

lemma digitVal_digitChar:
  assumes "d < 10"
  shows "digitVal (digitChar d) = Some d"
proof -
  from assms have "d = 0 \<or> d = 1 \<or> d = 2 \<or> d = 3 \<or> d = 4 \<or> d = 5 \<or> d = 6 \<or> d = 7
      \<or> d = 8 \<or> d = 9"
    by presburger
  then show ?thesis
    by (elim disjE) (simp_all add: digitChar_def digitVal_def)
qed

lemma isDigit_digitChar: "d < 10 \<Longrightarrow> isDigit (digitChar d)"
  by (simp add: isDigit_def digitVal_digitChar)

lemma natToString_digits: "c \<in> set (natToString n) \<Longrightarrow> isDigit c"
proof (induction n rule: natToString.induct)
  case (1 n)
  then show ?case
    by (cases "n < 10") (auto simp: natToString.simps [of n] isDigit_digitChar)
qed

lemma natToString_nonempty: "natToString n \<noteq> []"
  by (cases "n < 10") (simp_all add: natToString.simps [of n])

lemma digitsVal_snoc:
  "digitsVal r dv (ds @ [c]) = r * digitsVal r dv ds + (case dv c of Some d \<Rightarrow> d | None \<Rightarrow> 0)"
  by (simp add: digitsVal_def)

lemma digitsVal_natToString: "digitsVal 10 digitVal (natToString n) = n"
proof (induction n rule: natToString.induct)
  case (1 n)
  show ?case
  proof (cases "n < 10")
    case True
    then show ?thesis
      by (simp add: natToString.simps [of n] digitsVal_def digitVal_digitChar)
  next
    case False
    with 1 show ?thesis
      by (simp add: natToString.simps [of n] digitsVal_snoc digitVal_digitChar)
  qed
qed

lemma digitsVal_append:
  "digitsVal 10 dv (xs @ ys) = digitsVal 10 dv xs * 10 ^ length ys + digitsVal 10 dv ys"
proof (induction ys rule: rev_induct)
  case Nil
  then show ?case by (simp add: digitsVal_def)
next
  case (snoc c ys)
  have "digitsVal 10 dv (xs @ ys @ [c]) =
          10 * digitsVal 10 dv (xs @ ys) + (case dv c of Some d \<Rightarrow> d | None \<Rightarrow> 0)"
    using digitsVal_snoc [of 10 dv "xs @ ys" c] by simp
  with snoc show ?case
    by (simp add: digitsVal_snoc algebra_simps)
qed

lemma digitVal_less: "digitVal c = Some d \<Longrightarrow> d < 10"
  by (auto simp: digitVal_def split: if_splits)

lemma digitsVal_bound:
  assumes "\<And>c. c \<in> set ds \<Longrightarrow> isDigit c"
  shows "digitsVal 10 digitVal ds < 10 ^ length ds"
  using assms
proof (induction ds rule: rev_induct)
  case Nil
  then show ?case by (simp add: digitsVal_def)
next
  case (snoc c ds)
  then obtain d where d: "digitVal c = Some d"
    by (auto simp: isDigit_def)
  then have "d < 10" by (rule digitVal_less)
  moreover have "digitsVal 10 digitVal ds < 10 ^ length ds"
    using snoc by simp
  ultimately show ?case
    by (simp add: digitsVal_snoc d)
qed

text \<open>What parsing does to a string that starts with a decimal numeral.\<close>

lemma takeWhile_digits:
  assumes "\<And>c. c \<in> set ds \<Longrightarrow> isDigit c" and "rest = [] \<or> \<not> isDigit (hd rest)"
  shows "takeWhile isDigit (ds @ rest) = ds" and "dropWhile isDigit (ds @ rest) = rest"
  using assms by (cases rest; simp)+

lemma digit_not_special:
  assumes "isDigit c"
  shows "\<not> isWhiteSpace c" and "c \<noteq> CHR ''-''" and "c \<noteq> CHR ''+''" and "c \<noteq> CHR ''.''"
    and "c \<noteq> CHR ''I''" and "c \<noteq> CHR ''x''" and "c \<noteq> CHR ''X''" and "c \<noteq> CHR ''p''"
  using assms by (auto simp: isDigit_iff isWhiteSpace_def)

lemma natToString_Cons: "\<exists>c r. natToString n = c # r \<and> isDigit c \<and> (\<forall>x\<in>set r. isDigit x)"
  using natToString_nonempty [of n] natToString_digits [of _ n]
  by (cases "natToString n") auto

lemma parseInt_decimal:
  assumes "dropWhile isWhiteSpace s = s" and "splitSign s = (neg, s')"
    and "take 2 s' \<noteq> ''0x''" and "take 2 s' \<noteq> ''0X''"
    and "takeWhile (\<lambda>c. digitVal c \<noteq> None) s' = ds" and "ds \<noteq> []"
  shows "parseInt s = Some (if neg then - int (digitsVal 10 digitVal ds)
                             else int (digitsVal 10 digitVal ds))"
  unfolding parseInt_def assms(1,2) using assms(3-6) by (simp add: Let_def)

lemma digits_not_hex:
  assumes "\<And>x. x \<in> set s \<Longrightarrow> isDigit x"
  shows "take 2 s \<noteq> ''0x''" and "take 2 s \<noteq> ''0X''"
proof -
  have "\<And>t. take 2 s = [CHR ''0'', t] \<Longrightarrow> isDigit t"
    using assms by (metis in_set_takeD list.set_intros(1,2))
  then show "take 2 s \<noteq> ''0x''" and "take 2 s \<noteq> ''0X''"
    using digit_not_special(6,7) by blast+
qed

lemma takeWhile_all_digits:
  assumes "\<And>x. x \<in> set s \<Longrightarrow> isDigit x"
  shows "takeWhile (\<lambda>c. digitVal c \<noteq> None) s = s"
  using assms by (induction s) (auto simp: isDigit_def)

lemma parseInt_natToString: "parseInt (natToString n) = Some (int n)"
proof -
  obtain c r where cr: "natToString n = c # r" "isDigit c"
    using natToString_Cons by blast
  have digits: "\<And>x. x \<in> set (natToString n) \<Longrightarrow> isDigit x"
    by (rule natToString_digits)
  have "parseInt (natToString n) =
          Some (if False then - int (digitsVal 10 digitVal (natToString n))
                else int (digitsVal 10 digitVal (natToString n)))"
  proof (rule parseInt_decimal)
    show "dropWhile isWhiteSpace (natToString n) = natToString n"
      using digit_not_special(1) [OF cr(2)] by (simp add: cr(1))
    show "splitSign (natToString n) = (False, natToString n)"
      using digit_not_special(2,3) [OF cr(2)] by (simp add: splitSign_def cr(1))
    show "take 2 (natToString n) \<noteq> ''0x''" and "take 2 (natToString n) \<noteq> ''0X''"
      using digits_not_hex [OF digits] by blast+
    show "takeWhile (\<lambda>c. digitVal c \<noteq> None) (natToString n) = natToString n"
      using digits by (rule takeWhile_all_digits)
    show "natToString n \<noteq> []"
      by (rule natToString_nonempty)
  qed
  then show ?thesis
    by (simp add: digitsVal_natToString)
qed

lemma parseInt_intToString: "parseInt (intToString i) = Some i"
proof (cases "i < 0")
  case False
  then show ?thesis by (simp add: intToString_def parseInt_natToString)
next
  case True
  let ?ds = "natToString (nat (- i))"
  have digits: "\<And>x. x \<in> set ?ds \<Longrightarrow> isDigit x"
    by (rule natToString_digits)
  have "parseInt (CHR ''-'' # ?ds) =
          Some (if True then - int (digitsVal 10 digitVal ?ds)
                else int (digitsVal 10 digitVal ?ds))"
  proof (rule parseInt_decimal)
    show "dropWhile isWhiteSpace (CHR ''-'' # ?ds) = CHR ''-'' # ?ds"
      by (simp add: isWhiteSpace_def)
    show "splitSign (CHR ''-'' # ?ds) = (True, ?ds)"
      by (simp add: splitSign_def)
    show "take 2 ?ds \<noteq> ''0x''" and "take 2 ?ds \<noteq> ''0X''"
      using digits_not_hex [OF digits] by blast+
    show "takeWhile (\<lambda>c. digitVal c \<noteq> None) ?ds = ?ds"
      using digits by (rule takeWhile_all_digits)
    show "?ds \<noteq> []"
      by (rule natToString_nonempty)
  qed
  with True show ?thesis
    by (simp add: intToString_def digitsVal_natToString)
qed

lemma replace_px:
  assumes "CHR ''p'' \<notin> set s"
  shows "replace ''px'' [] (s @ ''px'') = s"
  using assms by (induction s) auto

lemma intToString_no_p: "CHR ''p'' \<notin> set (intToString i)"
  using natToString_digits digit_not_special(8)
  by (auto simp: intToString_def)

lemma parseInt_pixels: "parseInt (replace ''px'' [] (intToString i @ ''px'')) = Some i"
  by (simp add: replace_px intToString_no_p parseInt_intToString)

section \<open>The font rounding guard\<close>

lemma parseFloat_decimal:
  assumes "dropWhile isWhiteSpace s = s" and "splitSign s = (False, s)"
    and "take 8 s \<noteq> ''Infinity''"
    and "takeWhile isDigit s = ip" and "dropWhile isDigit s = r1"
    and "(case r1 of c # t \<Rightarrow> (if c = CHR ''.'' then (takeWhile isDigit t, dropWhile isDigit t)
                                   else ([], r1))
          | [] \<Rightarrow> ([], r1)) = (fp, [])"
    and "ip \<noteq> []"
  shows "parseFloat s = Decimal (int (digitsVal 10 digitVal (ip @ fp))) (- int (length fp))"
  unfolding parseFloat_def assms(1,2) using assms(3-7)
  by (simp add: Let_def exponentPart_def)

lemma parseFloat_numeral:
  assumes "\<And>c. c \<in> set fs \<Longrightarrow> isDigit c"
  shows "parseFloat (natToString m @ (if fs = [] then [] else CHR ''.'' # fs))
           = Decimal (int (m * 10 ^ length fs + digitsVal 10 digitVal fs)) (- int (length fs))"
proof -
  let ?frac = "if fs = [] then [] else CHR ''.'' # fs"
  let ?s = "natToString m @ ?frac"
  obtain c r where cr: "natToString m = c # r" "isDigit c"
    using natToString_Cons by blast
  have digits: "\<And>x. x \<in> set (natToString m) \<Longrightarrow> isDigit x"
    by (rule natToString_digits)
  have stop: "?frac = [] \<or> \<not> isDigit (hd ?frac)"
    using digit_not_special(4) by auto
  have "parseFloat ?s = Decimal (int (digitsVal 10 digitVal (natToString m @ fs))) (- int (length fs))"
  proof (rule parseFloat_decimal)
    show "dropWhile isWhiteSpace ?s = ?s"
      using digit_not_special(1) [OF cr(2)] by (simp add: cr(1))
    show "splitSign ?s = (False, ?s)"
      using digit_not_special(2,3) [OF cr(2)] by (simp add: splitSign_def cr(1))
    show "take 8 ?s \<noteq> ''Infinity''"
      using digit_not_special(5) [OF cr(2)] by (simp add: cr(1))
    show "takeWhile isDigit ?s = natToString m"
      using takeWhile_digits(1) [OF digits stop] by simp
    show "dropWhile isDigit ?s = ?frac"
      using takeWhile_digits(2) [OF digits stop] by simp
    show "(case ?frac of c # t \<Rightarrow> (if c = CHR ''.'' then (takeWhile isDigit t, dropWhile isDigit t)
                                     else ([], ?frac))
           | [] \<Rightarrow> ([], ?frac)) = (fs, [])"
      using assms by simp
    show "natToString m \<noteq> []"
      by (rule natToString_nonempty)
  qed
  then show ?thesis
    by (simp add: digitsVal_append digitsVal_natToString)
qed

lemma floor_numeral:
  assumes "v < 10 ^ k"
  shows "Math_floor (Decimal (int (m * 10 ^ k + v)) (- int k)) = Decimal (int m) 0"
proof (cases "k = 0")
  case True
  with assms show ?thesis by simp
next
  case False
  have "(m * 10 ^ k + v) div 10 ^ k = m"
    using assms by simp
  then have "int (m * 10 ^ k + v) div 10 ^ k = int m"
    by (metis of_nat_numeral of_nat_power zdiv_int)
  with False show ?thesis by simp
qed

lemma natToString_digit:
  "natToString 9 = ''9''" "natToString (Suc 0) = ''1''" "natToString 0 = ''0''"
  by (simp_all add: natToString.simps [of 9] natToString.simps [of "Suc 0"]
        natToString.simps [of 0] digitChar_def)

lemma numberToString_tenths:
  assumes "t \<noteq> 0" and "nat \<bar>t\<bar> div 10 = q" and "nat \<bar>t\<bar> mod 10 = d"
    and "natToString d = [c]" and "c \<noteq> CHR ''0''"
  shows "numberToString (Decimal t (- 1))
           = (if t < 0 then ''-'' else []) @ natToString q @ [CHR ''.'', c]"
  using assms by (simp add: Let_def stripTrailingZeros_def)

lemma tenth_below_string:
  "numberToString (minusTenth (Decimal (int m) 0)) = tenthBelow m"
proof (cases "m = 0")
  case True
  have "numberToString (Decimal (- 1) (- 1)) = ''-'' @ natToString 0 @ [CHR ''.'', CHR ''1'']"
    using numberToString_tenths [of "- 1" 0 "Suc 0" "CHR ''1''"]
    by (simp add: natToString_digit)
  with True show ?thesis
    by (simp add: tenthBelow_def natToString_digit)
next
  case False
  let ?t = "int m * 10 - 1"
  have eq: "nat \<bar>?t\<bar> = 10 * (m - 1) + 9"
    using False by (simp add: nat_diff_distrib' algebra_simps)
  have "numberToString (Decimal ?t (- 1))
          = (if ?t < 0 then ''-'' else []) @ natToString (m - 1) @ [CHR ''.'', CHR ''9'']"
  proof (rule numberToString_tenths)
    show "?t \<noteq> 0" using False by presburger
    show "nat \<bar>?t\<bar> div 10 = m - 1" unfolding eq by simp
    show "nat \<bar>?t\<bar> mod 10 = 9" unfolding eq by simp
    show "natToString 9 = [CHR ''9'']" by (simp add: natToString_digit)
    show "CHR ''9'' \<noteq> CHR ''0''" by simp
  qed
  moreover have "\<not> ?t < 0" using False by simp
  ultimately show ?thesis
    using False by (simp add: tenthBelow_def)
qed

lemma reducedFont_pxLiteral:
  assumes "\<And>c. c \<in> set fs \<Longrightarrow> isDigit c"
  shows "numberToString (reducedFont (pxLiteral m fs)) = tenthBelow m"
proof -
  have "substring0 (pxLiteral m fs) (int (length (pxLiteral m fs)) - 2)
          = natToString m @ (if fs = [] then [] else CHR ''.'' # fs)"
    by (simp add: substring0_def pxLiteral_def)
  then have "reducedFont (pxLiteral m fs) =
          minusTenth (Math_floor (Decimal (int (m * 10 ^ length fs + digitsVal 10 digitVal fs))
                                     (- int (length fs))))"
    using parseFloat_numeral [OF assms, where m = m] by (simp add: reducedFont_def)
  then show ?thesis
    using floor_numeral [OF digitsVal_bound [OF assms], where m = m] tenth_below_string [of m]
    by simp
qed

lemma endsWith_pxLiteral: "endsWith (pxLiteral m fs) ''px''"
  by (simp add: endsWith_def pxLiteral_def)

section \<open>Style corrections\<close>

lemma styleProperty_slow:
  assumes "c_style (cloneData cl) = Some t" and "cssText (computedStyle (nodeData n)) = []"
    and "k \<noteq> ''inset-block''" and "k \<in> set (propertyNames (computedStyle (nodeData n)))"
  shows "styleProperty (cloneCSSStyle env n cl) k = map_of (cloneProperty env n [] k) k"
  using assms by (simp add: styleProperty_def cloneCSSStyle_slow foldl_cloneProperty)

lemma committed_font_size:
  "map_of (cloneProperty env n [] ''font-size'') ''font-size'' =
     Some (let v = getPropertyValue (computedStyle (nodeData n)) ''font-size'' in
             if endsWith v ''px'' then numberToString (reducedFont v) @ ''px'' else v,
           getPropertyPriority (computedStyle (nodeData n)) ''font-size'')"
  by (cases "parentElement (nodeData n)")
     (simp_all add: cloneProperty_def Let_def map_of_setProperty parentScrollStep_def
        bodyScrollStep_def)

lemma committed_overflow_y:
  assumes "nonBodyScrolling n"
  shows "map_of (cloneProperty env n [] ''overflow-y'') ''overflow-y'' =
           Some (''hidden'', getPropertyPriority (computedStyle (nodeData n)) ''overflow-y'')"
  using assms
  by (cases "parentElement (nodeData n)")
     (simp_all add: cloneProperty_def Let_def map_of_setProperty parentScrollStep_def
        bodyScrollStep_def)

lemma committed_position:
  assumes "parentElement (nodeData n) = Some p"
    and "parentScrolling p \<or> bodyScrolling env (computedStyle (nodeData n)) p"
  shows "map_of (cloneProperty env n [] ''position'') ''position'' =
           Some (''relative'', getPropertyPriority (computedStyle (nodeData n)) ''position'')"
  using assms
  by (auto simp: cloneProperty_def Let_def map_of_setProperty parentScrollStep_def
        bodyScrollStep_def)

lemma scroll_steps_top:
  "fst (bodyScrollStep env cs p ''top'' (parentScrollStep p ''top'' (v, t))) =
     (if bodyScrolling env cs p then ''-'' @ intToString (scrollY env) @ ''px''
      else if parentScrolling p then ''-'' @ intToString (box_scrollTop p) @ ''px''
      else v)"
  by (simp add: parentScrollStep_def bodyScrollStep_def)

lemma committed_top:
  assumes "parentElement (nodeData n) = Some p"
  shows "map_of (cloneProperty env n [] ''top'') ''top'' =
           Some (if bodyScrolling env (computedStyle (nodeData n)) p
                   then ''-'' @ intToString (scrollY env) @ ''px''
                 else if parentScrolling p then ''-'' @ intToString (box_scrollTop p) @ ''px''
                 else getPropertyValue (computedStyle (nodeData n)) ''top'',
                 getPropertyPriority (computedStyle (nodeData n)) ''top'')"
  using assms
  by (simp add: cloneProperty_def Let_def map_of_setProperty scroll_steps_top)

lemma bodyScrolling_only_when:
  assumes "bodyScrolling env cs p"
  shows "position cs \<noteq> ''fixed'' \<and>
         minHeight (box_style p) = intToString (innerHeight env) @ ''px'' \<and>
         (\<exists>h. parseInt (replace ''px'' [] (height cs)) = Some h \<and> innerHeight env < h)"
proof -
  from assms have fixed: "position cs \<noteq> ''fixed''"
    and minH: "minHeight (box_style p) = intToString (innerHeight env) @ ''px''"
    and less: "numLess (parseInt (replace ''px'' [] (minHeight (box_style p))))
                 (parseInt (replace ''px'' [] (height cs)))"
    by (auto simp: bodyScrolling_def)
  from less have "numLess (Some (innerHeight env)) (parseInt (replace ''px'' [] (height cs)))"
    by (simp add: minH parseInt_pixels)
  then have "\<exists>h. parseInt (replace ''px'' [] (height cs)) = Some h \<and> innerHeight env < h"
    by (cases "parseInt (replace ''px'' [] (height cs))") (simp_all add: numLess_def)
  with fixed minH show ?thesis by simp
qed

lemmas style_simps =
  styledNode_def computedFrom_def scrolledParent_def plainData_def shallowClone_def
  getPropertyValue_def getPropertyPriority_def overflowY_def position_def height_def
  minHeight_def

section \<open>The corrections of style replication\<close>

text \<open>
  C3.  On the per-property path, a computed \<^verbatim>\<open>font-size\<close> that ends in \<^verbatim>\<open>px\<close> is
  committed as the floor of its number minus 0.1, followed by \<^verbatim>\<open>px\<close>: for a value
  written as a decimal numeral with integer part \<open>m\<close> this is the numeral of
  \<open>m - 0.1\<close>, so \<^verbatim>\<open>16px\<close> becomes \<^verbatim>\<open>15.9px\<close>.  A value that does not end in
  \<^verbatim>\<open>px\<close> is committed unchanged.  The priority is kept.
\<close>

theorem font_size_is_reduced:
  assumes "c_style (cloneData cl) = Some t"
    and "cssText (computedStyle (nodeData n)) = []"
    and "''font-size'' \<in> set (propertyNames (computedStyle (nodeData n)))"
    and "getPropertyValue (computedStyle (nodeData n)) ''font-size'' = v"
    and "getPropertyPriority (computedStyle (nodeData n)) ''font-size'' = priority"
  shows "(endsWith v ''px'' \<longrightarrow>
            styleProperty (cloneCSSStyle env n cl) ''font-size''
              = Some (numberToString (reducedFont v) @ ''px'', priority)) \<and>
         (v = pxLiteral m fs \<and> (\<forall>c\<in>set fs. isDigit c) \<longrightarrow>
            styleProperty (cloneCSSStyle env n cl) ''font-size''
              = Some (tenthBelow m @ ''px'', priority)) \<and>
         (\<not> endsWith v ''px'' \<longrightarrow>
            styleProperty (cloneCSSStyle env n cl) ''font-size'' = Some (v, priority))"
proof -
  have "styleProperty (cloneCSSStyle env n cl) ''font-size''
          = Some (if endsWith v ''px'' then numberToString (reducedFont v) @ ''px'' else v, priority)"
    using styleProperty_slow [OF assms(1,2) _ assms(3), of env] committed_font_size [of env n]
    by (simp add: assms(4,5) Let_def)
  then show ?thesis
    using reducedFont_pxLiteral [of fs m] endsWith_pxLiteral [of m fs] by auto
qed

theorem font_size_is_reduced_witness:
  "styleProperty (cloneCSSStyle window0 (fontNode ''16px'') (shallowClone (fontNode ''16px''))) ''font-size''
     = Some (''15.9px'', []) \<and>
   styleProperty (cloneCSSStyle window0 (fontNode ''1.2em'') (shallowClone (fontNode ''1.2em''))) ''font-size''
     = Some (''1.2em'', [])"
  using font_size_is_reduced [where cl = "shallowClone (fontNode ''16px'')"
          and t = "[(''inset-block'', (''0px'', []))]" and n = "fontNode ''16px''"
          and v = "''16px''" and priority = "[]" and m = 16 and fs = "[]" and env = window0,
          THEN conjunct2, THEN conjunct1]
    font_size_is_reduced [where cl = "shallowClone (fontNode ''1.2em'')"
          and t = "[(''inset-block'', (''0px'', []))]" and n = "fontNode ''1.2em''"
          and v = "''1.2em''" and priority = "[]" and m = 0 and fs = "[]" and env = window0,
          THEN conjunct2, THEN conjunct2]
  by (simp add: fontNode_def style_simps pxLiteral_def tenthBelow_def natToString.simps
        digitChar_def endsWith_def)

text \<open>
  C4, as stated, fails when the computed style has a serialized text: the text is copied
  and no correction is made.  Here a node scrolled by 40 pixels with computed
  \<^verbatim>\<open>overflow-y: auto\<close> gets a clone whose \<^verbatim>\<open>overflow-y\<close> is still \<^verbatim>\<open>auto\<close>.
\<close>

theorem own_scroll_hides_overflow_counterexample:
  "0 < scrollTop (nodeData fastScroller) \<and>
   overflowY (computedStyle (nodeData fastScroller)) = ''auto'' \<and>
   styleProperty (cloneCSSStyle textWindow fastScroller (shallowClone fastScroller)) ''overflow-y''
     = Some (''auto'', [])"
  by (simp add: fastScroller_def style_simps styleProperty_def cloneCSSStyle_def setStyle_def
        textWindow_def window0_def setProperty_def transformOrigin_def)

text \<open>
  C4, amended.  On the per-property path (the computed style has no serialized text), for
  a clone that has a style, a node whose own scroll offset is positive and whose computed
  \<^verbatim>\<open>overflow-y\<close> is \<^verbatim>\<open>auto\<close> or \<^verbatim>\<open>scroll\<close> gets \<^verbatim>\<open>overflow-y: hidden\<close> on its
  clone, with the priority of the source, when \<^verbatim>\<open>overflow-y\<close> is among the enumerated
  properties.
\<close>

theorem own_scroll_hides_overflow:
  assumes "c_style (cloneData cl) = Some t"
    and "cssText (computedStyle (nodeData n)) = []"
    and "''overflow-y'' \<in> set (propertyNames (computedStyle (nodeData n)))"
    and "0 < scrollTop (nodeData n)"
    and "overflowY (computedStyle (nodeData n)) = ''auto'' \<or>
         overflowY (computedStyle (nodeData n)) = ''scroll''"
  shows "styleProperty (cloneCSSStyle env n cl) ''overflow-y''
           = Some (''hidden'', getPropertyPriority (computedStyle (nodeData n)) ''overflow-y'')"
proof -
  have "nonBodyScrolling n"
    using assms(4,5) by (simp add: nonBodyScrolling_def)
  then show ?thesis
    using styleProperty_slow [OF assms(1,2) _ assms(3), of env] committed_overflow_y [of n env]
    by simp
qed

theorem own_scroll_hides_overflow_witness:
  "styleProperty (cloneCSSStyle window0 scroller (shallowClone scroller)) ''overflow-y''
     = Some (''hidden'', [])"
  using own_scroll_hides_overflow [where cl = "shallowClone scroller"
          and t = "[(''inset-block'', (''0px'', []))]" and n = scroller and env = window0]
  by (simp add: scroller_def style_simps)

text \<open>
  C5, as stated, fails in two ways.  When the document-scroll condition holds as well,
  \<^verbatim>\<open>top\<close> is the negated window scroll offset, here \<^verbatim>\<open>-100px\<close> and not
  \<^verbatim>\<open>-25px\<close>.  And when the computed style has a serialized text, the text is copied
  and neither \<^verbatim>\<open>position\<close> nor \<^verbatim>\<open>top\<close> is rewritten.
\<close>

theorem parent_scroll_offsets_clone_counterexample:
  "parentElement (nodeData (scrolledChild ''800px'')) = Some (scrolledParent ''800px'') \<and>
   box_scrollTop (scrolledParent ''800px'') = 25 \<and>
   overflowY (box_style (scrolledParent ''800px'')) = ''scroll'' \<and>
   styleProperty (cloneCSSStyle textWindow (scrolledChild ''800px'')
                    (shallowClone (scrolledChild ''800px''))) ''top''
     = Some (''-100px'', []) \<and>
   parentElement (nodeData fastChild) = Some (scrolledParent ''0px'') \<and>
   styleProperty (cloneCSSStyle textWindow fastChild (shallowClone fastChild)) ''position''
     = Some (''static'', []) \<and>
   styleProperty (cloneCSSStyle textWindow fastChild (shallowClone fastChild)) ''top''
     = Some (''auto'', [])"
  by (simp add: scrolledChild_def fastChild_def style_simps styleProperty_def cloneCSSStyle_def
        setStyle_def textWindow_def window0_def cloneProperty_def Let_def setProperty_def
        removeProperty_def transformOrigin_def
        parentScrollStep_def bodyScrollStep_def parentScrolling_def bodyScrolling_def
        nonBodyScrolling_def intToString_def natToString.simps digitChar_def parseInt_def
        splitSign_def isWhiteSpace_def digitVal_def digitsVal_def numLess_def endsWith_def)

text \<open>
  C5, amended.  On the per-property path, for a clone that has a style, a node whose
  parent element exists, has a positive scroll offset and has computed \<^verbatim>\<open>overflow-y\<close>
  \<^verbatim>\<open>auto\<close> or \<^verbatim>\<open>scroll\<close> gets \<^verbatim>\<open>position: relative\<close> on its clone, and
  \<^verbatim>\<open>top\<close> equal to the negated scroll offset of the parent in pixels unless the
  document-scroll condition holds too.  Processing \<^verbatim>\<open>top\<close> removes \<^verbatim>\<open>inset-block\<close>
  from the clone, and the property stays absent when it is not enumerated after
  \<^verbatim>\<open>top\<close>.
\<close>

theorem parent_scroll_offsets_clone:
  assumes "c_style (cloneData cl) = Some t"
    and "cssText (computedStyle (nodeData n)) = []"
    and "parentElement (nodeData n) = Some p"
    and "0 < box_scrollTop p"
    and "overflowY (box_style p) = ''auto'' \<or> overflowY (box_style p) = ''scroll''"
  shows "(''position'' \<in> set (propertyNames (computedStyle (nodeData n))) \<longrightarrow>
            styleProperty (cloneCSSStyle env n cl) ''position''
              = Some (''relative'', getPropertyPriority (computedStyle (nodeData n)) ''position'')) \<and>
         (''top'' \<in> set (propertyNames (computedStyle (nodeData n))) \<and>
          \<not> bodyScrolling env (computedStyle (nodeData n)) p \<longrightarrow>
            styleProperty (cloneCSSStyle env n cl) ''top''
              = Some (''-'' @ intToString (box_scrollTop p) @ ''px'',
                      getPropertyPriority (computedStyle (nodeData n)) ''top'')) \<and>
         (propertyNames (computedStyle (nodeData n)) = before @ ''top'' # after \<and>
          ''inset-block'' \<notin> set after \<longrightarrow>
            styleProperty (cloneCSSStyle env n cl) ''inset-block'' = None)"
proof -
  have scrolling: "parentScrolling p"
    using assms(4,5) by (simp add: parentScrolling_def)
  have position: "styleProperty (cloneCSSStyle env n cl) ''position''
      = Some (''relative'', getPropertyPriority (computedStyle (nodeData n)) ''position'')"
    if "''position'' \<in> set (propertyNames (computedStyle (nodeData n)))"
    using styleProperty_slow [OF assms(1,2) _ that, of env]
      committed_position [OF assms(3), of env] scrolling by simp
  have top: "styleProperty (cloneCSSStyle env n cl) ''top''
      = Some (''-'' @ intToString (box_scrollTop p) @ ''px'',
              getPropertyPriority (computedStyle (nodeData n)) ''top'')"
    if "''top'' \<in> set (propertyNames (computedStyle (nodeData n)))"
      and "\<not> bodyScrolling env (computedStyle (nodeData n)) p"
    using styleProperty_slow [OF assms(1,2) _ that(1), of env]
      committed_top [OF assms(3), of env] scrolling that(2) by simp
  have inset: "styleProperty (cloneCSSStyle env n cl) ''inset-block'' = None"
    if "propertyNames (computedStyle (nodeData n)) = before @ ''top'' # after"
      and "''inset-block'' \<notin> set after"
    using foldl_strips_inset [OF assms(3) _ that, of env t] scrolling
    by (simp add: styleProperty_def cloneCSSStyle_slow [OF assms(1,2)])
  from position top inset show ?thesis by blast
qed

theorem parent_scroll_offsets_clone_witness:
  "styleProperty (cloneCSSStyle window0 (scrolledChild ''0px'') (shallowClone (scrolledChild ''0px''))) ''position''
     = Some (''relative'', []) \<and>
   styleProperty (cloneCSSStyle window0 (scrolledChild ''0px'') (shallowClone (scrolledChild ''0px''))) ''top''
     = Some (''-25px'', []) \<and>
   styleProperty (cloneCSSStyle window0 (scrolledChild ''0px'') (shallowClone (scrolledChild ''0px''))) ''inset-block''
     = None \<and>
   styleProperty (shallowClone (scrolledChild ''0px'')) ''inset-block'' = Some (''0px'', [])"
  using parent_scroll_offsets_clone [where cl = "shallowClone (scrolledChild ''0px'')"
          and t = "[(''inset-block'', (''0px'', []))]" and n = "scrolledChild ''0px''"
          and p = "scrolledParent ''0px''" and env = window0
          and before = "[''height'', ''position'']" and after = "[]"]
  by (simp add: scrolledChild_def style_simps styleProperty_def window0_def bodyScrolling_def
        intToString_def natToString.simps digitChar_def)


text \<open>
  C6.  For each property the check on the scroll offset of the parent runs first and the
  document-scroll check second, on the same parent, so that for \<^verbatim>\<open>top\<close> the second
  wins: whatever target the iteration starts from, the value committed is the negated
  window scroll offset when the document-scroll condition holds, else the negated scroll
  offset of the parent when that one is scrolled, else the computed value.  When both
  conditions hold the clone ends with \<^verbatim>\<open>top\<close> equal to \<^verbatim>\<open>-\<close>\<open>scrollY\<close>\<^verbatim>\<open>px\<close>.  The
  document-scroll condition holds only when the computed position is not \<^verbatim>\<open>fixed\<close>,
  the computed \<^verbatim>\<open>min-height\<close> of the parent is the viewport height in pixels, and the
  viewport height is less than the integer that \<^verbatim>\<open>parseInt\<close> reads from the node's
  computed height.
\<close>

theorem document_scroll_wins:
  assumes "c_style (cloneData cl) = Some t"
    and "cssText (computedStyle (nodeData n)) = []"
    and "parentElement (nodeData n) = Some p"
  shows "map_of (cloneProperty env n t' ''top'') ''top'' =
           Some (if bodyScrolling env (computedStyle (nodeData n)) p
                   then ''-'' @ intToString (scrollY env) @ ''px''
                 else if parentScrolling p then ''-'' @ intToString (box_scrollTop p) @ ''px''
                 else getPropertyValue (computedStyle (nodeData n)) ''top'',
                 getPropertyPriority (computedStyle (nodeData n)) ''top'') \<and>
         (parentScrolling p \<and> bodyScrolling env (computedStyle (nodeData n)) p \<and>
          ''top'' \<in> set (propertyNames (computedStyle (nodeData n))) \<longrightarrow>
            styleProperty (cloneCSSStyle env n cl) ''top''
              = Some (''-'' @ intToString (scrollY env) @ ''px'',
                      getPropertyPriority (computedStyle (nodeData n)) ''top'')) \<and>
         (bodyScrolling env (computedStyle (nodeData n)) p \<longrightarrow>
            position (computedStyle (nodeData n)) \<noteq> ''fixed'' \<and>
            minHeight (box_style p) = intToString (innerHeight env) @ ''px'' \<and>
            (\<exists>h. parseInt (replace ''px'' [] (height (computedStyle (nodeData n)))) = Some h \<and>
                 innerHeight env < h))"
proof -
  have step: "map_of (cloneProperty env n t' ''top'') ''top'' =
           Some (if bodyScrolling env (computedStyle (nodeData n)) p
                   then ''-'' @ intToString (scrollY env) @ ''px''
                 else if parentScrolling p then ''-'' @ intToString (box_scrollTop p) @ ''px''
                 else getPropertyValue (computedStyle (nodeData n)) ''top'',
                 getPropertyPriority (computedStyle (nodeData n)) ''top'')"
    using cloneProperty_own [of env n t' "''top''"] committed_top [OF assms(3), of env] by simp
  have final: "styleProperty (cloneCSSStyle env n cl) ''top''
              = Some (''-'' @ intToString (scrollY env) @ ''px'',
                      getPropertyPriority (computedStyle (nodeData n)) ''top'')"
    if "bodyScrolling env (computedStyle (nodeData n)) p"
      and "''top'' \<in> set (propertyNames (computedStyle (nodeData n)))"
    using styleProperty_slow [OF assms(1,2) _ that(2), of env]
      committed_top [OF assms(3), of env] that(1) by simp
  from step final bodyScrolling_only_when [of env "computedStyle (nodeData n)" p]
  show ?thesis by blast
qed

lemma both_scroll_conditions:
  "parentScrolling (scrolledParent ''800px'') \<and>
   bodyScrolling textWindow (computedStyle (nodeData (scrolledChild ''800px''))) (scrolledParent ''800px'')"
  by (simp add: scrolledChild_def style_simps textWindow_def window0_def parentScrolling_def
        bodyScrolling_def intToString_def natToString.simps digitChar_def parseInt_def
        splitSign_def isWhiteSpace_def digitVal_def digitsVal_def numLess_def)

theorem document_scroll_wins_witness:
  "parentScrolling (scrolledParent ''800px'') \<and>
   bodyScrolling textWindow (computedStyle (nodeData (scrolledChild ''800px''))) (scrolledParent ''800px'') \<and>
   styleProperty (cloneCSSStyle textWindow (scrolledChild ''800px'')
                    (shallowClone (scrolledChild ''800px''))) ''top''
     = Some (''-100px'', [])"
  using document_scroll_wins [where cl = "shallowClone (scrolledChild ''800px'')"
          and t = "[(''inset-block'', (''0px'', []))]" and n = "scrolledChild ''800px''"
          and p = "scrolledParent ''800px''" and env = textWindow,
          THEN conjunct2, THEN conjunct1]
    both_scroll_conditions
  by (simp add: scrolledChild_def style_simps textWindow_def window0_def
        intToString_def natToString.simps digitChar_def)

end
